theory Spec2Isabelle
  imports Complex_Main
begin

section \<open>Asteroid Destroyer: the simulation core of Asteroidsgame.py\<close>

text \<open>
  The embedding follows the Python source function by function. Python ints are \<open>int\<close>
  and Python floats are reals. Two results of the program depend on how IEEE doubles
  round, the integer radius of a split child and the wrapped position next to the edge,
  and there the arithmetic is the rounded one: the literals, \<open>random.uniform\<close>, the
  product under \<open>int()\<close> and the float \<open>%\<close>. Everywhere else arithmetic is exact and
  rounding is not modelled. The presentation
  and audio calls (drawing, fonts, \<open>Sound.play\<close>, \<open>mixer.get_busy\<close>) neither read nor
  write simulation state and are left out. The two external collaborators the simulation
  reads are explicit inputs:
  \<^item> the clock \<open>pygame.time.get_ticks()\<close>: a feed of readings, one consumed per call;
  \<^item> the module \<open>random\<close>: a feed of unit draws (the values of \<open>random.random()\<close>,
    each in \<open>[0, 1)\<close>), one consumed per call of \<open>uniform\<close>, \<open>choice\<close>,
    \<open>randrange\<close> or \<open>randint\<close>.
\<close>

subsection \<open>Double arithmetic\<close>

text \<open>
  Rounding of a real to the nearest IEEE 754 double (binary64), ties to the even
  significand: a number in the binade of exponent \<open>e\<close> is rounded to the nearest
  multiple of \<open>2 ^ (e - 52)\<close>, with the exponent held at \<open>-1022\<close> for the subnormal
  numbers. Overflow to infinity (magnitudes from \<open>2 ^ 1024\<close> on) is not modelled.
\<close>

definition round_even :: "real \<Rightarrow> int" where
  "round_even v =
     (let f = \<lfloor>v\<rfloor>; d = v - of_int f
      in if d < 1 / 2 then f
         else if 1 / 2 < d then f + 1
         else if even f then f else f + 1)"

definition exponent :: "real \<Rightarrow> int" where
  "exponent v = max \<lfloor>log 2 \<bar>v\<bar>\<rfloor> (- 1022)"

definition ulp :: "real \<Rightarrow> real" where
  "ulp v = 2 powr of_int (exponent v - 52)"

definition round_double :: "real \<Rightarrow> real" where
  "round_double v = (if v = 0 then 0 else ulp v * of_int (round_even (v / ulp v)))"

subsection \<open>Game config\<close>

definition WIDTH :: int where "WIDTH = 960"
definition HEIGHT :: int where "HEIGHT = 720"
definition ASTEROID_MIN_RADIUS :: int where "ASTEROID_MIN_RADIUS = 16"
definition ASTEROID_MAX_RADIUS :: int where "ASTEROID_MAX_RADIUS = 60"
definition ASTEROID_SPLIT_FACTOR :: real where "ASTEROID_SPLIT_FACTOR = round_double 0.55"
definition ASTEROID_CHILD_VARIANCE :: real where "ASTEROID_CHILD_VARIANCE = round_double 0.15"
definition ASTEROID_START_COUNT :: int where "ASTEROID_START_COUNT = 5"
definition ASTEROID_SPEED_BASE :: real where "ASTEROID_SPEED_BASE = 1.2"
definition LASER_SPEED :: real where "LASER_SPEED = 9.0"
definition LASER_COOLDOWN :: int where "LASER_COOLDOWN = 180"
definition SHIP_THRUST :: real where "SHIP_THRUST = 0.18"
definition SHIP_FRICTION :: real where "SHIP_FRICTION = 0.992"
definition SHIP_MAX_SPEED :: real where "SHIP_MAX_SPEED = 6.0"
definition INVULN_TIME :: int where "INVULN_TIME = 1500"
definition LIVES :: int where "LIVES = 3"

text \<open>
  The literals \<open>0.55\<close> and \<open>0.15\<close> enter the radius of a split child, so they are the
  doubles that Python reads them as.
\<close>

subsection \<open>External inputs: feeds of clock readings and of random draws\<close>

type_synonym 'a feed = "nat \<Rightarrow> 'a"

definition advance :: "'a feed \<Rightarrow> 'a feed" where
  "advance f = (\<lambda>n. f (Suc n))"

text \<open>\<open>pygame.time.get_ticks()\<close>: the next reading of the clock, in milliseconds.\<close>

definition get_ticks :: "int feed \<Rightarrow> int \<times> int feed" where
  "get_ticks clk = (clk 0, advance clk)"

text \<open>
  The functions of Python's \<open>random\<close> module that the game calls, each computed from
  the next unit draw \<open>u\<close>: \<open>uniform(a, b)\<close> is \<open>a + (b - a) * u\<close> in double
  arithmetic (each of the three operations rounds), \<open>choice(seq)\<close>
  picks index \<open>floor(u * len(seq))\<close>, \<open>randrange(a, b)\<close> is \<open>a + floor(u * (b - a))\<close>
  and \<open>randint(a, b)\<close> is \<open>randrange(a, b + 1)\<close>.
\<close>

definition unit_draws :: "real feed \<Rightarrow> bool" where
  "unit_draws r = (\<forall>n. 0 \<le> r n \<and> r n < 1)"

definition random_uniform :: "real \<Rightarrow> real \<Rightarrow> real feed \<Rightarrow> real \<times> real feed" where
  "random_uniform a b r =
     (round_double (a + round_double (round_double (b - a) * r 0)), advance r)"

definition random_choice :: "'a list \<Rightarrow> real feed \<Rightarrow> 'a \<times> real feed" where
  "random_choice xs r = (xs ! nat \<lfloor>r 0 * real (length xs)\<rfloor>, advance r)"

definition random_randrange :: "int \<Rightarrow> int \<Rightarrow> real feed \<Rightarrow> int \<times> real feed" where
  "random_randrange a b r = (a + \<lfloor>r 0 * of_int (b - a)\<rfloor>, advance r)"

definition random_randint :: "int \<Rightarrow> int \<Rightarrow> real feed \<Rightarrow> int \<times> real feed" where
  "random_randint a b r = random_randrange a (b + 1) r"

subsection \<open>Utility\<close>

text \<open>Python's \<open>int()\<close> of a float truncates toward zero.\<close>

definition py_int :: "real \<Rightarrow> int" where
  "py_int v = (if 0 \<le> v then \<lfloor>v\<rfloor> else \<lceil>v\<rceil>)"

text \<open>
  Python's \<open>%\<close> on floats, as CPython's \<open>float_rem\<close> computes it: C's \<open>fmod\<close>, a
  remainder with the sign of the dividend that is exact in doubles, and then, when that
  remainder is not zero and its sign differs from the sign of the modulus, the double sum
  \<open>mod += wx\<close>.
\<close>

definition fmod :: "real \<Rightarrow> real \<Rightarrow> real" where
  "fmod a m = a - m * of_int (py_int (a / m))"

definition py_mod :: "real \<Rightarrow> real \<Rightarrow> real" where
  "py_mod a m =
     (let md = fmod a m
      in if md \<noteq> 0 \<and> (m < 0) \<noteq> (md < 0) then round_double (md + m) else md)"

definition hypot :: "real \<Rightarrow> real \<Rightarrow> real" where
  "hypot a b = sqrt (a\<^sup>2 + b\<^sup>2)"

text \<open>\<open>math.atan2(y, x)\<close>: the angle of the point \<open>(x, y)\<close>, in \<open>(-pi, pi]\<close>.\<close>

definition atan2 :: "real \<Rightarrow> real \<Rightarrow> real" where
  "atan2 b a =
     (if 0 < a then arctan (b / a)
      else if a < 0 \<and> 0 \<le> b then arctan (b / a) + pi
      else if a < 0 then arctan (b / a) - pi
      else if 0 < b then pi / 2
      else if b < 0 then - pi / 2
      else 0)"

definition wrap_position :: "real \<Rightarrow> real \<Rightarrow> real \<times> real" where
  "wrap_position px py = (py_mod px (of_int WIDTH), py_mod py (of_int HEIGHT))"

definition vec_from_angle :: "real \<Rightarrow> real \<Rightarrow> real \<times> real" where
  "vec_from_angle ang magnitude = (cos ang * magnitude, sin ang * magnitude)"

subsection \<open>Game objects\<close>

record laser =
  x :: real
  y :: real
  vx :: real
  vy :: real
  radius :: int
  alive :: bool
  ttl :: int
  birth :: int

record asteroid =
  x :: real
  y :: real
  vx :: real
  vy :: real
  radius :: int

record ship =
  x :: real
  y :: real
  vx :: real
  vy :: real
  angle :: real
  radius :: int
  alive :: bool
  invuln_until :: int

text \<open>\<open>Laser.__init__\<close> reads the clock for the time of birth.\<close>

definition Laser :: "real \<Rightarrow> real \<Rightarrow> real \<Rightarrow> real \<Rightarrow> int feed \<Rightarrow> laser \<times> int feed" where
  "Laser px py pvx pvy clk =
     (let (now, clk1) = get_ticks clk
      in (\<lparr>laser.x = px, laser.y = py, laser.vx = pvx, laser.vy = pvy, laser.radius = 3,
           laser.alive = True, laser.ttl = 1200, laser.birth = now\<rparr>, clk1))"

definition Laser_update :: "laser \<Rightarrow> int feed \<Rightarrow> laser \<times> int feed" where
  "Laser_update l clk =
     (let (wx, wy) = wrap_position (laser.x l + laser.vx l) (laser.y l + laser.vy l);
          l1 = l\<lparr>laser.x := wx, laser.y := wy\<rparr>;
          (now, clk1) = get_ticks clk
      in (if now - laser.birth l1 > laser.ttl l1 then l1\<lparr>laser.alive := False\<rparr> else l1, clk1))"

text \<open>\<open>Asteroid.__init__\<close> with an explicit velocity, and without one (random heading).\<close>

definition Asteroid :: "real \<Rightarrow> real \<Rightarrow> int \<Rightarrow> real \<Rightarrow> real \<Rightarrow> asteroid" where
  "Asteroid px py rad pvx pvy =
     \<lparr>asteroid.x = px, asteroid.y = py, asteroid.vx = pvx, asteroid.vy = pvy,
      asteroid.radius = rad\<rparr>"

definition Asteroid_random :: "real \<Rightarrow> real \<Rightarrow> int \<Rightarrow> real feed \<Rightarrow> asteroid \<times> real feed" where
  "Asteroid_random px py rad r =
     (let (ang, r1) = random_uniform 0 (2 * pi) r;
          (jitter, r2) = random_uniform (- 0.3) 0.3 r1;
          speed = ASTEROID_SPEED_BASE + of_int (ASTEROID_MAX_RADIUS - rad) * 0.02 + jitter;
          (pvx, pvy) = vec_from_angle ang speed
      in (Asteroid px py rad pvx pvy, r2))"

definition Asteroid_update :: "asteroid \<Rightarrow> asteroid" where
  "Asteroid_update a =
     (let (wx, wy) = wrap_position (asteroid.x a + asteroid.vx a) (asteroid.y a + asteroid.vy a)
      in a\<lparr>asteroid.x := wx, asteroid.y := wy\<rparr>)"

text \<open>\<open>Asteroid.split\<close>: the body of the loop that makes one child, then the loop.\<close>

definition split_child :: "asteroid \<Rightarrow> real feed \<Rightarrow> asteroid \<times> real feed" where
  "split_child a r =
     (let (var, r1) = random_uniform (- ASTEROID_CHILD_VARIANCE) ASTEROID_CHILD_VARIANCE r;
          new_r = max ASTEROID_MIN_RADIUS
                    (py_int (round_double (of_int (asteroid.radius a)
                                             * round_double (ASTEROID_SPLIT_FACTOR + var))));
          (ang, r2) = random_uniform 0 (2 * pi) r1;
          (fac, r3) = random_uniform (- 0.2) 0.35 r2;
          speed = (hypot (asteroid.vx a) (asteroid.vy a) + 0.5) * (1.0 + fac);
          (pvx, pvy) = vec_from_angle ang speed
      in (Asteroid (asteroid.x a) (asteroid.y a) new_r pvx pvy, r3))"

fun split_children :: "nat \<Rightarrow> asteroid \<Rightarrow> real feed \<Rightarrow> asteroid list \<times> real feed" where
  "split_children 0 a r = ([], r)"
| "split_children (Suc n) a r =
     (let (kid, r1) = split_child a r;
          (kids, r2) = split_children n a r1
      in (kid # kids, r2))"

definition Asteroid_split :: "asteroid \<Rightarrow> real feed \<Rightarrow> asteroid list \<times> real feed" where
  "Asteroid_split a r =
     (if asteroid.radius a \<le> ASTEROID_MIN_RADIUS then ([], r)
      else let (num_children, r1) = random_choice [2, 2, 3 :: nat] r
           in split_children num_children a r1)"

text \<open>\<open>Ship.__init__\<close>, \<open>Ship.reset\<close> and \<open>Ship.can_be_hit\<close>.\<close>

definition Ship :: ship where
  "Ship = \<lparr>ship.x = of_int WIDTH / 2, ship.y = of_int HEIGHT / 2, ship.vx = 0.0, ship.vy = 0.0,
           ship.angle = 0.0, ship.radius = 12, ship.alive = True, ship.invuln_until = 0\<rparr>"

definition Ship_reset :: "int feed \<Rightarrow> ship \<times> int feed" where
  "Ship_reset clk =
     (let (now, clk1) = get_ticks clk
      in (Ship\<lparr>ship.invuln_until := now + INVULN_TIME\<rparr>, clk1))"

definition can_be_hit :: "ship \<Rightarrow> int feed \<Rightarrow> bool \<times> int feed" where
  "can_be_hit s clk =
     (let (now, clk1) = get_ticks clk
      in (now \<ge> ship.invuln_until s, clk1))"

text \<open>The keys that \<open>pygame.key.get_pressed()\<close> and the key events are asked about.\<close>

datatype key = K_w | K_UP | K_s | K_DOWN | K_a | K_LEFT | K_d | K_RIGHT
  | K_ESCAPE | K_p | K_r | K_other

text \<open>One thrust contribution: \<open>vx += ax; vy += ay\<close> when the input is active.\<close>

definition thrust :: "bool \<Rightarrow> real \<Rightarrow> real \<Rightarrow> ship \<Rightarrow> ship" where
  "thrust active ang magnitude s =
     (if active
      then let (ax, ay) = vec_from_angle ang magnitude
           in s\<lparr>ship.vx := ship.vx s + ax, ship.vy := ship.vy s + ay\<rparr>
      else s)"

definition Ship_update :: "(key \<Rightarrow> bool) \<Rightarrow> real \<times> real \<Rightarrow> ship \<Rightarrow> ship" where
  "Ship_update keys mouse_pos s =
     (let (mx, my) = mouse_pos;
          s0 = s\<lparr>ship.angle := atan2 (my - ship.y s) (mx - ship.x s)\<rparr>;
          s1 = thrust (keys K_w \<or> keys K_UP) (ship.angle s0) SHIP_THRUST s0;
          s2 = thrust (keys K_s \<or> keys K_DOWN) (ship.angle s1 + pi) (SHIP_THRUST * 0.6) s1;
          s3 = thrust (keys K_a \<or> keys K_LEFT) (ship.angle s2 - pi / 2) (SHIP_THRUST * 0.6) s2;
          s4 = thrust (keys K_d \<or> keys K_RIGHT) (ship.angle s3 + pi / 2) (SHIP_THRUST * 0.6) s3;
          speed = hypot (ship.vx s4) (ship.vy s4);
          s5 = (if speed > SHIP_MAX_SPEED
                then let scale = SHIP_MAX_SPEED / speed
                     in s4\<lparr>ship.vx := ship.vx s4 * scale, ship.vy := ship.vy s4 * scale\<rparr>
                else s4);
          s6 = s5\<lparr>ship.vx := ship.vx s5 * SHIP_FRICTION, ship.vy := ship.vy s5 * SHIP_FRICTION\<rparr>;
          (wx, wy) = wrap_position (ship.x s6 + ship.vx s6) (ship.y s6 + ship.vy s6)
      in s6\<lparr>ship.x := wx, ship.y := wy\<rparr>)"

subsection \<open>Game\<close>

record game =
  ship :: ship
  lasers :: "laser list"
  asteroids :: "asteroid list"
  score :: int
  lives :: int
  last_shot :: int
  running :: bool
  paused :: bool
  game_over :: bool

text \<open>
  \<open>Game._spawn_wave\<close>. The inner \<open>while True\<close> loop resamples a position until it is
  more than 200 away from the ship; it need not terminate, so it lives in the option
  monad and \<open>None\<close> stands for a loop that never ends.
\<close>

definition margin :: int where "margin = 80"

partial_function (option) spawn_position :: "ship \<Rightarrow> real feed \<Rightarrow> ((int \<times> int) \<times> real feed) option" where
  "spawn_position s r =
     (let (px, r1) = random_randrange margin (WIDTH - margin) r;
          (py, r2) = random_randrange margin (HEIGHT - margin) r1
      in if hypot (of_int px - ship.x s) (of_int py - ship.y s) > 200
         then Some ((px, py), r2)
         else spawn_position s r2)"

fun spawn_loop :: "nat \<Rightarrow> ship \<Rightarrow> asteroid list \<Rightarrow> real feed \<Rightarrow> (asteroid list \<times> real feed) option" where
  "spawn_loop 0 s as r = Some (as, r)"
| "spawn_loop (Suc n) s as r =
     (case spawn_position s r of
        None \<Rightarrow> None
      | Some ((px, py), r1) \<Rightarrow>
          (let (rad, r2) = random_randint (ASTEROID_MAX_RADIUS - 15) ASTEROID_MAX_RADIUS r1;
               (a, r3) = Asteroid_random (of_int px) (of_int py) rad r2
           in spawn_loop n s (as @ [a]) r3))"

definition spawn_wave :: "int \<Rightarrow> game \<Rightarrow> real feed \<Rightarrow> (game \<times> real feed) option" where
  "spawn_wave count g r =
     (case spawn_loop (nat count) (ship g) [] r of
        None \<Rightarrow> None
      | Some (as, r1) \<Rightarrow> Some (g\<lparr>asteroids := as\<rparr>, r1))"

text \<open>\<open>Game.__init__\<close>: the fresh session, then the starting wave.\<close>

definition Game :: "real feed \<Rightarrow> (game \<times> real feed) option" where
  "Game r =
     spawn_wave ASTEROID_START_COUNT
       \<lparr>ship = Ship, lasers = [], asteroids = [], score = 0, lives = LIVES, last_shot = 0,
        running = True, paused = False, game_over = False\<rparr> r"

definition shoot :: "game \<Rightarrow> int feed \<Rightarrow> game \<times> int feed" where
  "shoot g clk =
     (let (now, clk1) = get_ticks clk
      in if now - last_shot g < LASER_COOLDOWN then (g, clk1)
         else let g1 = g\<lparr>last_shot := now\<rparr>;
                  (pvx, pvy) = vec_from_angle (ship.angle (ship g1)) LASER_SPEED;
                  lx = ship.x (ship g1)
                       + cos (ship.angle (ship g1)) * (of_int (ship.radius (ship g1)) * 1.8);
                  ly = ship.y (ship g1)
                       + sin (ship.angle (ship g1)) * (of_int (ship.radius (ship g1)) * 1.8);
                  (l, clk2) = Laser lx ly pvx pvy clk1
              in (g1\<lparr>lasers := lasers g1 @ [l]\<rparr>, clk2))"

text \<open>
  \<open>Game.update\<close>, block by block. First the motion of the lasers (each reads the clock
  for its time to live), in list order.
\<close>

fun update_lasers :: "laser list \<Rightarrow> int feed \<Rightarrow> laser list \<times> int feed" where
  "update_lasers [] clk = ([], clk)"
| "update_lasers (l # ls) clk =
     (let (l1, clk1) = Laser_update l clk;
          (ls1, clk2) = update_lasers ls clk1
      in (l1 # ls1, clk2))"

text \<open>
  Collisions, lasers against asteroids. The circle test of the inner loop, then the inner
  loop itself: it walks \<open>self.lasers\<close> in order, and at the first laser that touches the
  asteroid it sets \<open>l.alive = False\<close>, sets \<open>hit\<close> and breaks. The laser stays in the
  list; the list is filtered at the start of the next update.
\<close>

definition laser_touches :: "asteroid \<Rightarrow> laser \<Rightarrow> bool" where
  "laser_touches a l =
     ((asteroid.x a - laser.x l)\<^sup>2 + (asteroid.y a - laser.y l)\<^sup>2
        \<le> (of_int (asteroid.radius a + laser.radius l))\<^sup>2)"

fun hit_by_laser :: "asteroid \<Rightarrow> laser list \<Rightarrow> laser list \<times> bool" where
  "hit_by_laser a [] = ([], False)"
| "hit_by_laser a (l # ls) =
     (if laser_touches a l then (l\<lparr>laser.alive := False\<rparr> # ls, True)
      else let (ls1, hit) = hit_by_laser a ls in (l # ls1, hit))"

definition points :: "asteroid \<Rightarrow> int" where
  "points a = max 1 ((ASTEROID_MAX_RADIUS - asteroid.radius a) div 5)"

text \<open>
  The outer loop over \<open>self.asteroids\<close>; its state is the lasers, the score, the list
  \<open>new_asteroids\<close> and the random feed that \<open>split\<close> draws from.
\<close>

fun lasers_vs_asteroids ::
  "asteroid list \<Rightarrow> laser list \<Rightarrow> int \<Rightarrow> asteroid list \<Rightarrow> real feed
     \<Rightarrow> laser list \<times> int \<times> asteroid list \<times> real feed" where
  "lasers_vs_asteroids [] ls sc new_asteroids r = (ls, sc, new_asteroids, r)"
| "lasers_vs_asteroids (a # as) ls sc new_asteroids r =
     (let (ls1, hit) = hit_by_laser a ls
      in if hit
         then let sc1 = sc + points a;
                  (kids, r1) = Asteroid_split a r
              in lasers_vs_asteroids as ls1 sc1 (new_asteroids @ kids) r1
         else lasers_vs_asteroids as ls1 sc (new_asteroids @ [a]) r)"

text \<open>Collisions, ship against asteroids: the loop with its \<open>break\<close>, then the guard.\<close>

definition ship_touches :: "asteroid \<Rightarrow> ship \<Rightarrow> bool" where
  "ship_touches a s =
     ((asteroid.x a - ship.x s)\<^sup>2 + (asteroid.y a - ship.y s)\<^sup>2
        \<le> (of_int (asteroid.radius a + ship.radius s))\<^sup>2)"

fun ship_hit_loop :: "asteroid list \<Rightarrow> game \<Rightarrow> int feed \<Rightarrow> game \<times> int feed" where
  "ship_hit_loop [] g clk = (g, clk)"
| "ship_hit_loop (a # as) g clk =
     (if ship_touches a (ship g)
      then let g1 = g\<lparr>lives := lives g - 1\<rparr>;
               (s, clk1) = Ship_reset clk;
               g2 = g1\<lparr>ship := s\<rparr>
           in (if lives g2 \<le> 0 then g2\<lparr>game_over := True\<rparr> else g2, clk1)
      else ship_hit_loop as g clk)"

definition ship_vs_asteroids :: "game \<Rightarrow> int feed \<Rightarrow> game \<times> int feed" where
  "ship_vs_asteroids g clk =
     (let (hittable, clk1) = can_be_hit (ship g) clk
      in if hittable then ship_hit_loop (asteroids g) g clk1 else (g, clk1))"

text \<open>The last block: the next wave.\<close>

definition next_wave :: "game \<Rightarrow> real feed \<Rightarrow> (game \<times> real feed) option" where
  "next_wave g r =
     (if asteroids g = [] \<and> \<not> game_over g
      then let next_count = min 12 (5 + score g div 15)
           in spawn_wave next_count g r
      else Some (g, r))"

definition Game_update ::
  "(key \<Rightarrow> bool) \<Rightarrow> real \<times> real \<Rightarrow> game \<Rightarrow> int feed \<Rightarrow> real feed
     \<Rightarrow> (game \<times> int feed \<times> real feed) option" where
  "Game_update keys mouse_pos g clk r =
     (if game_over g \<or> paused g then Some (g, clk, r)
      else let g1 = g\<lparr>ship := Ship_update keys mouse_pos (ship g)\<rparr>;
               (ls1, clk1) = update_lasers (lasers g1) clk;
               g2 = g1\<lparr>lasers := filter laser.alive ls1\<rparr>;
               g3 = g2\<lparr>asteroids := map Asteroid_update (asteroids g2)\<rparr>;
               (ls2, sc, new_asteroids, r1) =
                  lasers_vs_asteroids (asteroids g3) (lasers g3) (score g3) [] r;
               g4 = g3\<lparr>lasers := ls2, score := sc, asteroids := new_asteroids\<rparr>;
               (g5, clk2) = ship_vs_asteroids g4 clk1
           in case next_wave g5 r1 of
                None \<Rightarrow> None
              | Some (g6, r2) \<Rightarrow> Some (g6, clk2, r2))"

text \<open>
  \<open>Game.handle_events\<close>: one event, then the loop over the event queue. A restart runs
  \<open>Game.__init__\<close> again.
\<close>

datatype event = QUIT | KEYDOWN key | MOUSEBUTTONDOWN int | OTHER_EVENT

definition handle_event ::
  "event \<Rightarrow> game \<Rightarrow> int feed \<Rightarrow> real feed \<Rightarrow> (game \<times> int feed \<times> real feed) option" where
  "handle_event e g clk r =
     (case e of
        QUIT \<Rightarrow> Some (g\<lparr>running := False\<rparr>, clk, r)
      | KEYDOWN k \<Rightarrow>
          (if k = K_ESCAPE then Some (g\<lparr>running := False\<rparr>, clk, r)
           else if k = K_p then Some (g\<lparr>paused := \<not> paused g\<rparr>, clk, r)
           else if k = K_r \<and> game_over g
             then (case Game r of None \<Rightarrow> None | Some (g1, r1) \<Rightarrow> Some (g1, clk, r1))
           else Some (g, clk, r))
      | MOUSEBUTTONDOWN button \<Rightarrow>
          (if button = 1 \<and> \<not> paused g \<and> \<not> game_over g
           then let (g1, clk1) = shoot g clk in Some (g1, clk1, r)
           else Some (g, clk, r))
      | OTHER_EVENT \<Rightarrow> Some (g, clk, r))"

fun handle_events ::
  "event list \<Rightarrow> game \<Rightarrow> int feed \<Rightarrow> real feed \<Rightarrow> (game \<times> int feed \<times> real feed) option" where
  "handle_events [] g clk r = Some (g, clk, r)"
| "handle_events (e # es) g clk r =
     (case handle_event e g clk r of
        None \<Rightarrow> None
      | Some (g1, clk1, r1) \<Rightarrow> handle_events es g1 clk1 r1)"

subsection \<open>The steps of the ship update, one by one\<close>

text \<open>
  The five steps the specification names for \<open>Ship.update\<close>, each as a function of its
  own, to be compared with the source's \<open>Ship_update\<close>: accumulate thrust (after aiming
  at the pointer), clamp the speed, apply friction, integrate the position, wrap.
\<close>

definition ship_accumulate_thrust :: "(key \<Rightarrow> bool) \<Rightarrow> real \<times> real \<Rightarrow> ship \<Rightarrow> ship" where
  "ship_accumulate_thrust keys mouse_pos s =
     (let ang = atan2 (snd mouse_pos - ship.y s) (fst mouse_pos - ship.x s)
      in thrust (keys K_d \<or> keys K_RIGHT) (ang + pi / 2) (SHIP_THRUST * 0.6)
           (thrust (keys K_a \<or> keys K_LEFT) (ang - pi / 2) (SHIP_THRUST * 0.6)
              (thrust (keys K_s \<or> keys K_DOWN) (ang + pi) (SHIP_THRUST * 0.6)
                 (thrust (keys K_w \<or> keys K_UP) ang SHIP_THRUST (s\<lparr>ship.angle := ang\<rparr>)))))"

definition ship_clamp_speed :: "ship \<Rightarrow> ship" where
  "ship_clamp_speed s =
     (if hypot (ship.vx s) (ship.vy s) > SHIP_MAX_SPEED
      then s\<lparr>ship.vx := ship.vx s * (SHIP_MAX_SPEED / hypot (ship.vx s) (ship.vy s)),
             ship.vy := ship.vy s * (SHIP_MAX_SPEED / hypot (ship.vx s) (ship.vy s))\<rparr>
      else s)"

definition ship_apply_friction :: "ship \<Rightarrow> ship" where
  "ship_apply_friction s = s\<lparr>ship.vx := ship.vx s * SHIP_FRICTION, ship.vy := ship.vy s * SHIP_FRICTION\<rparr>"

definition ship_integrate :: "ship \<Rightarrow> ship" where
  "ship_integrate s = s\<lparr>ship.x := ship.x s + ship.vx s, ship.y := ship.y s + ship.vy s\<rparr>"

definition ship_wrap :: "ship \<Rightarrow> ship" where
  "ship_wrap s = s\<lparr>ship.x := fst (wrap_position (ship.x s) (ship.y s)),
                  ship.y := snd (wrap_position (ship.x s) (ship.y s))\<rparr>"

subsection \<open>Predicates of the statements\<close>

text \<open>
  A feed with its first \<open>m\<close> entries dropped. A position is far from the ship when it
  passes the test of the resampling loop. The next two draws are accepted when the
  position they give passes it, and resampling ends on a feed when, from every point of
  the feed on, some later pair of draws is accepted (which holds with probability one for
  independent uniform draws).
\<close>

definition skip :: "nat \<Rightarrow> 'a feed \<Rightarrow> 'a feed" where
  "skip m f = (\<lambda>i. f (i + m))"

definition far_from_ship :: "ship \<Rightarrow> real \<Rightarrow> real \<Rightarrow> bool" where
  "far_from_ship s px py = (hypot (px - ship.x s) (py - ship.y s) > 200)"

definition accepted_draws :: "ship \<Rightarrow> real feed \<Rightarrow> bool" where
  "accepted_draws s r =
     far_from_ship s
       (of_int (fst (random_randrange margin (WIDTH - margin) r)))
       (of_int (fst (random_randrange margin (HEIGHT - margin) (advance r))))"

definition resampling_ends :: "ship \<Rightarrow> real feed \<Rightarrow> bool" where
  "resampling_ends s r = (\<forall>n. \<exists>k. accepted_draws s (skip (n + 2 * k) r))"

subsection \<open>Sample inputs\<close>

text \<open>
  Concrete inputs on which the properties below are exercised: a clock that reads the
  same time at every call, and a session of one life around a given list of asteroids,
  with the ship at its spawn position in the middle of the screen.
\<close>

definition steady_clock :: "int \<Rightarrow> int feed" where
  "steady_clock t = (\<lambda>_. t)"

definition rock :: "real \<Rightarrow> real \<Rightarrow> int \<Rightarrow> asteroid" where
  "rock px py rad = Asteroid px py rad 1 0"

definition session :: "asteroid list \<Rightarrow> game" where
  "session as =
     \<lparr>ship = Ship, lasers = [], asteroids = as, score = 0, lives = 1, last_shot = 0,
      running = True, paused = False, game_over = False\<rparr>"

text \<open>
  A clock that advances by a fixed step at each reading, a random feed whose draws are
  all zero, and the session right after a first shot fired at time 1000.
\<close>

definition ticking :: "int \<Rightarrow> int \<Rightarrow> int feed" where
  "ticking t0 dt = (\<lambda>n. t0 + int n * dt)"

definition zero_draws :: "real feed" where
  "zero_draws = (\<lambda>_. 0)"

definition first_shot :: game where
  "first_shot = (session [])\<lparr>last_shot := 1000,
        lasers := [\<lparr>laser.x = 5016 / 10, laser.y = 360, laser.vx = 9, laser.vy = 0,
                    laser.radius = 3, laser.alive = True, laser.ttl = 1200, laser.birth = 1050\<rparr>]\<rparr>"

text \<open>A laser fired at time 4900, flying to the right.\<close>

definition bolt :: "real \<Rightarrow> real \<Rightarrow> laser" where
  "bolt px py = \<lparr>laser.x = px, laser.y = py, laser.vx = 9, laser.vy = 0, laser.radius = 3,
                 laser.alive = True, laser.ttl = 1200, laser.birth = 4900\<rparr>"

section \<open>Properties\<close>

lemmas config =
  WIDTH_def HEIGHT_def ASTEROID_MIN_RADIUS_def ASTEROID_MAX_RADIUS_def
  ASTEROID_START_COUNT_def
  ASTEROID_SPEED_BASE_def LASER_SPEED_def LASER_COOLDOWN_def SHIP_THRUST_def
  SHIP_FRICTION_def SHIP_MAX_SPEED_def INVULN_TIME_def LIVES_def



subsection \<open>Rounding to doubles\<close>

lemma round_even_of_int: "round_even (of_int n) = n"
  by (simp add: round_even_def)

lemma round_even_le: "v \<le> of_int N \<Longrightarrow> round_even v \<le> N"
proof (cases "\<lfloor>v\<rfloor> = N")
  case True
  assume "v \<le> of_int N"
  with True have "v - of_int \<lfloor>v\<rfloor> \<le> 0"
    by simp
  with True show ?thesis
    by (simp add: round_even_def Let_def)
next
  case False
  assume "v \<le> of_int N"
  then have "\<lfloor>v\<rfloor> \<le> N"
    by (simp add: floor_le_iff)
  with False have "\<lfloor>v\<rfloor> + 1 \<le> N"
    by simp
  then show ?thesis
    by (auto simp: round_even_def Let_def)
qed

lemma round_even_ge: "of_int N \<le> v \<Longrightarrow> N \<le> round_even v"
proof -
  assume "of_int N \<le> v"
  then have "N \<le> \<lfloor>v\<rfloor>" by (simp add: le_floor_iff)
  then show ?thesis
    by (auto simp: round_even_def Let_def)
qed

lemma round_even_minus: "round_even (- v) = - round_even v"
proof (cases "v = of_int \<lfloor>v\<rfloor>")
  case True
  then have "round_even v = \<lfloor>v\<rfloor>" "round_even (- v) = - \<lfloor>v\<rfloor>"
    by (metis round_even_of_int, metis round_even_of_int of_int_minus)
  then show ?thesis by simp
next
  case False
  then have f: "\<lfloor>- v\<rfloor> = - \<lfloor>v\<rfloor> - 1"
    by (simp add: floor_minus ceiling_altdef)
  show ?thesis
    unfolding round_even_def Let_def f
    by (auto simp: algebra_simps) 
qed

lemma ulp_pos: "0 < ulp v"
  by (simp add: ulp_def)

lemma ulp_minus: "ulp (- v) = ulp v"
  by (simp add: ulp_def exponent_def)

lemma round_double_minus: "round_double (- v) = - round_double v"
  by (simp add: round_double_def ulp_minus round_even_minus)

lemma round_double_nonneg: "0 \<le> v \<Longrightarrow> 0 \<le> round_double v"
  using round_even_ge [of 0 "v / ulp v"] ulp_pos [of v]
  by (simp add: round_double_def)


lemma exponent_mono: "0 < w \<Longrightarrow> w \<le> c \<Longrightarrow> exponent w \<le> exponent c"
proof -
  assume "0 < w" "w \<le> c"
  then have "log 2 \<bar>w\<bar> \<le> log 2 \<bar>c\<bar>"
    by simp
  then have "\<lfloor>log 2 \<bar>w\<bar>\<rfloor> \<le> \<lfloor>log 2 \<bar>c\<bar>\<rfloor>"
    by (rule floor_mono)
  then show ?thesis
    by (simp add: exponent_def)
qed

lemma powr_of_nonneg_int: "0 \<le> d \<Longrightarrow> 2 powr of_int d = (2::real) ^ nat d"
  by (simp add: powr_real_of_int)

lemma ulp_ratio:
  assumes "exponent w \<le> exponent c"
  shows "ulp c = ulp w * 2 ^ nat (exponent c - exponent w)"
proof -
  have "ulp c = 2 powr (of_int (exponent w - 52) + of_int (exponent c - exponent w))"
    by (simp add: ulp_def)
  also have "\<dots> = ulp w * 2 powr of_int (exponent c - exponent w)"
    by (simp only: powr_add ulp_def)
  also have "2 powr of_int (exponent c - exponent w) = (2::real) ^ nat (exponent c - exponent w)"
    using assms by (intro powr_of_nonneg_int) simp
  finally show ?thesis .
qed

lemma round_double_le:
  assumes "0 < w" "w \<le> c" "round_double c = c"
  shows "round_double w \<le> c"
proof -
  let ?n = "round_even (c / ulp c)"
  let ?p = "(2::int) ^ nat (exponent c - exponent w)"
  from assms have c: "c = ulp c * of_int ?n"
    by (simp add: round_double_def split: if_splits)
  from assms have "exponent w \<le> exponent c"
    by (simp add: exponent_mono)
  then have "ulp c = ulp w * of_int ?p"
    by (simp add: ulp_ratio)
  with c have "c = ulp w * of_int (?p * ?n)"
    by simp
  then have cx: "c / ulp w = of_int (?p * ?n)"
    using ulp_pos [of w] by (simp add: field_simps)
  from assms ulp_pos [of w] have "w / ulp w \<le> c / ulp w"
    by (simp add: divide_right_mono)
  then have "round_even (w / ulp w) \<le> ?p * ?n"
    unfolding cx by (rule round_even_le)
  then have "of_int (round_even (w / ulp w)) \<le> (of_int (?p * ?n) :: real)"
    by (simp only: of_int_le_iff)
  then have "ulp w * of_int (round_even (w / ulp w)) \<le> ulp w * of_int (?p * ?n)"
    using ulp_pos [of w] by (simp only: mult_le_cancel_left_pos)
  also have "\<dots> = c"
    using cx ulp_pos [of w] by (simp add: field_simps)
  finally show ?thesis
    using assms by (simp add: round_double_def)
qed

lemma round_double_between:
  assumes "- c \<le> w" "w \<le> c" "round_double c = c"
  shows "- c \<le> round_double w \<and> round_double w \<le> c"
proof -
  consider "w = 0" | "0 < w" | "w < 0" by linarith
  then show ?thesis
  proof cases
    case 1
    with assms show ?thesis by (simp add: round_double_def)
  next
    case 2
    with assms round_double_le [of w c] round_double_nonneg [of w] show ?thesis
      by simp
  next
    case 3
    with assms round_double_le [of "- w" c] round_double_nonneg [of "- w"] show ?thesis
      by (simp add: round_double_minus)
  qed
qed

lemma exponent_at:
  fixes k :: nat
  assumes "k \<le> 1074" "2 ^ 52 / 2 ^ k \<le> \<bar>v\<bar>" "\<bar>v\<bar> < 2 ^ 53 / 2 ^ k"
  shows "exponent v = 52 - int k"
proof -
  have p: "2 powr of_int (52 - int k) = (2::real) ^ 52 / 2 ^ k"
    by (simp add: powr_diff powr_realpow)
  have p1: "2 powr of_int (52 - int k + 1) = (2::real) ^ 53 / 2 ^ k"
    by (simp add: powr_add powr_diff powr_realpow)
  from assms have pos: "0 < \<bar>v\<bar>"
    by (smt (verit) divide_pos_pos zero_less_power)
  have b: "2 powr of_int (52 - int k) \<le> \<bar>v\<bar>
           \<and> \<bar>v\<bar> < 2 powr of_int (52 - int k + 1)"
    unfolding p p1 using assms by simp
  have "(1::real) < 2"
    by simp
  with pos have "\<lfloor>log 2 \<bar>v\<bar>\<rfloor> = 52 - int k
      \<longleftrightarrow> 2 powr of_int (52 - int k) \<le> \<bar>v\<bar>
           \<and> \<bar>v\<bar> < 2 powr of_int (52 - int k + 1)"
    by (rule floor_log_eq_powr_iff)
  from this b have "\<lfloor>log 2 \<bar>v\<bar>\<rfloor> = 52 - int k"
    by (rule iffD2)
  with assms show ?thesis
    by (simp add: exponent_def)
qed

lemma round_double_at:
  fixes k :: nat
  assumes "k \<le> 1074" "2 ^ 52 / 2 ^ k \<le> \<bar>v\<bar>" "\<bar>v\<bar> < 2 ^ 53 / 2 ^ k"
  shows "round_double v = of_int (round_even (v * 2 ^ k)) / 2 ^ k"
proof -
  have "ulp v = 2 powr (- real k)"
    by (simp add: ulp_def exponent_at [OF assms])
  then have u: "ulp v = 1 / 2 ^ k"
    by (simp add: powr_minus powr_realpow inverse_eq_divide)
  from assms have "v \<noteq> 0"
    by (smt (verit) divide_pos_pos zero_less_power)
  then show ?thesis
    by (simp add: round_double_def u)
qed

subsection \<open>Pause and game over freeze the simulation\<close>

text \<open>
  C10. While the paused flag or the game-over flag is set, \<open>Game.update\<close> returns at
  once: the ship, every laser and asteroid, the score, the lives and the collections are
  what they were, and neither the clock nor the random module is consulted.
\<close>

theorem paused_update_identity:
  "paused g \<or> game_over g \<Longrightarrow> Game_update keys mouse_pos g clk r = Some (g, clk, r)"
  by (auto simp: Game_update_def)

theorem paused_update_identity_witness:
  "Game_update (\<lambda>_. True) (0, 0) ((session [rock 480 360 40])\<lparr>paused := True\<rparr>)
       (steady_clock 5000) (\<lambda>_. 0)
     = Some ((session [rock 480 360 40])\<lparr>paused := True\<rparr>, steady_clock 5000, \<lambda>_. 0)"
  using paused_update_identity
          [of "(session [rock 480 360 40])\<lparr>paused := True\<rparr>" "\<lambda>_. True" "(0, 0)"
              "steady_clock 5000" "\<lambda>_. 0"]
  by (simp add: session_def)

subsection \<open>Ship against asteroids\<close>

lemma ship_hit_loop_eq:
  "ship_hit_loop as g clk =
     (if \<exists>a \<in> set as. ship_touches a (ship g)
      then (g\<lparr>lives := lives g - 1, ship := Ship\<lparr>ship.invuln_until := clk 0 + INVULN_TIME\<rparr>,
              game_over := game_over g \<or> lives g - 1 \<le> 0\<rparr>, advance clk)
      else (g, clk))"
  by (induction as) (auto simp: Ship_reset_def get_ticks_def Let_def)

lemma ship_vs_asteroids_eq:
  "ship_vs_asteroids g clk =
     (if ship.invuln_until (ship g) \<le> clk 0 \<and> (\<exists>a \<in> set (asteroids g). ship_touches a (ship g))
      then (g\<lparr>lives := lives g - 1,
              ship := Ship\<lparr>ship.invuln_until := clk 1 + INVULN_TIME\<rparr>,
              game_over := game_over g \<or> lives g - 1 \<le> 0\<rparr>, advance (advance clk))
      else (g, advance clk))"
  by (simp add: ship_vs_asteroids_def can_be_hit_def get_ticks_def ship_hit_loop_eq advance_def)

text \<open>
  C2. The ship-asteroid phase reads the clock once (\<open>clk 0\<close>) and runs only when that
  reading is at or past \<open>invuln_until\<close>. If then some asteroid touches the ship, lives
  drop by exactly one however many asteroids overlap, the ship is the spawn ship with
  invulnerability until the reading of the reset (\<open>clk 1\<close>) plus \<open>INVULN_TIME\<close>, and
  the game is over when no life is left. In every other case nothing changes.
\<close>

theorem ship_collision_phase:
  "ship_vs_asteroids g clk =
     (if ship.invuln_until (ship g) \<le> clk 0 \<and> (\<exists>a \<in> set (asteroids g). ship_touches a (ship g))
      then (g\<lparr>lives := lives g - 1,
              ship := Ship\<lparr>ship.invuln_until := clk 1 + INVULN_TIME\<rparr>,
              game_over := game_over g \<or> lives g - 1 \<le> 0\<rparr>, advance (advance clk))
      else (g, advance clk))"
  by (rule ship_vs_asteroids_eq)

theorem ship_collision_phase_witness:
  "ship_vs_asteroids (session [rock 100 100 40, rock 480 360 40, rock 490 360 50])
       (steady_clock 5000)
     = ((session [rock 100 100 40, rock 480 360 40, rock 490 360 50])
          \<lparr>lives := 0, ship := Ship\<lparr>ship.invuln_until := 6500\<rparr>, game_over := True\<rparr>,
        steady_clock 5000)"
  using ship_collision_phase
          [of "session [rock 100 100 40, rock 480 360 40, rock 490 360 50]" "steady_clock 5000"]
  by (simp add: session_def rock_def Asteroid_def ship_touches_def Ship_def steady_clock_def
        advance_def config)

subsection \<open>Weapon cooldown\<close>

text \<open>
  C5, amended. A fire request reads the clock (\<open>clk 0\<close>) and is accepted exactly when
  that reading minus \<open>last_shot\<close> is at least \<open>LASER_COOLDOWN\<close>. An accepted request
  sets \<open>last_shot\<close> to the reading and appends one laser, placed at the ship's nose
  (1.8 radii along the facing angle) and moving along the facing direction at
  \<open>LASER_SPEED\<close>; a rejected request leaves the session as it was. Of two requests whose
  readings are less than \<open>LASER_COOLDOWN\<close> apart, at most one adds a laser, and exactly
  one does when the first request is accepted.
\<close>

theorem shoot_cooldown:
  assumes "shoot g clk = (g1, clk1)" and "shoot g1 clk1 = (g2, clk2)"
  shows "(LASER_COOLDOWN \<le> clk 0 - last_shot g \<longrightarrow>
            g1 = g\<lparr>last_shot := clk 0,
                   lasers := lasers g @
                     [\<lparr>laser.x = ship.x (ship g)
                                  + cos (ship.angle (ship g)) * (of_int (ship.radius (ship g)) * 1.8),
                       laser.y = ship.y (ship g)
                                  + sin (ship.angle (ship g)) * (of_int (ship.radius (ship g)) * 1.8),
                       laser.vx = cos (ship.angle (ship g)) * LASER_SPEED,
                       laser.vy = sin (ship.angle (ship g)) * LASER_SPEED,
                       laser.radius = 3, laser.alive = True, laser.ttl = 1200,
                       laser.birth = clk 1\<rparr>]\<rparr>
            \<and> clk1 = advance (advance clk))
       \<and> (clk 0 - last_shot g < LASER_COOLDOWN \<longrightarrow> g1 = g \<and> clk1 = advance clk)
       \<and> (clk1 0 - clk 0 < LASER_COOLDOWN \<longrightarrow>
            length (lasers g2) \<le> length (lasers g) + 1
            \<and> (LASER_COOLDOWN \<le> clk 0 - last_shot g \<longrightarrow>
                  length (lasers g2) = length (lasers g) + 1))"
  using assms
  by (auto simp: shoot_def get_ticks_def Laser_def vec_from_angle_def Let_def advance_def
           split: if_splits)

lemma shoot_first: "shoot (session []) (ticking 1000 50) = (first_shot, ticking 1100 50)"
  by (auto simp: shoot_def get_ticks_def Laser_def vec_from_angle_def Let_def advance_def
        session_def ticking_def Ship_def first_shot_def config)

lemma shoot_second: "shoot first_shot (ticking 1100 50) = (first_shot, ticking 1150 50)"
  by (auto simp: shoot_def get_ticks_def advance_def ticking_def first_shot_def session_def config)

theorem shoot_cooldown_witness:
  "LASER_COOLDOWN \<le> ticking 1000 50 0 - last_shot (session [])
   \<and> ticking 1100 50 0 - ticking 1000 50 0 < LASER_COOLDOWN
   \<and> shoot (session []) (ticking 1000 50) = (first_shot, ticking 1100 50)
   \<and> shoot first_shot (ticking 1100 50) = (first_shot, ticking 1150 50)
   \<and> length (lasers first_shot) = length (lasers (session [])) + 1"
proof -
  have a: "LASER_COOLDOWN \<le> ticking 1000 50 0 - last_shot (session [])"
    by (simp add: session_def ticking_def config)
  have b: "ticking 1100 50 0 - ticking 1000 50 0 < LASER_COOLDOWN"
    by (simp add: ticking_def config)
  from shoot_cooldown [OF shoot_first shoot_second] a b
  have "length (lasers first_shot) = length (lasers (session [])) + 1"
    by blast
  with a b shoot_first shoot_second show ?thesis
    by blast
qed

text \<open>
  Two further requests after that first shot, 100 and 150 ms after it: they are less than
  \<open>LASER_COOLDOWN\<close> apart, both are rejected, and no laser is added.
\<close>

theorem two_shots_counterexample:
  "ticking 1100 50 1 - ticking 1100 50 0 < LASER_COOLDOWN
   \<and> lasers (fst (shoot (fst (shoot first_shot (ticking 1100 50)))
                         (snd (shoot first_shot (ticking 1100 50))))) = lasers first_shot"
  by (simp add: shoot_def get_ticks_def first_shot_def session_def ticking_def advance_def
        config)

subsection \<open>Ship motion\<close>

lemma thrust_angle: "ship.angle (thrust b ang m s) = ship.angle s"
  by (simp add: thrust_def vec_from_angle_def)

lemma Ship_update_phases:
  "Ship_update keys mouse_pos s =
     ship_wrap (ship_integrate (ship_apply_friction (ship_clamp_speed
       (ship_accumulate_thrust keys mouse_pos s))))"
  by (cases mouse_pos)
     (simp add: Ship_update_def ship_wrap_def ship_integrate_def ship_apply_friction_def
        ship_clamp_speed_def ship_accumulate_thrust_def Let_def thrust_angle wrap_position_def)

lemma hypot_scaled:
  assumes "0 < hypot a b"
  shows "hypot (a * (c / hypot a b)) (b * (c / hypot a b)) = \<bar>c\<bar>"
proof -
  have h: "(hypot a b)\<^sup>2 = a\<^sup>2 + b\<^sup>2"
    by (simp add: hypot_def)
  have "(a * (c / hypot a b))\<^sup>2 + (b * (c / hypot a b))\<^sup>2 = (a\<^sup>2 + b\<^sup>2) * (c / hypot a b)\<^sup>2"
    by (simp only: power_mult_distrib distrib_right)
  also have "\<dots> = (hypot a b)\<^sup>2 * (c / hypot a b)\<^sup>2"
    by (simp only: h)
  also have "\<dots> = c\<^sup>2"
    using assms by (simp add: power_divide)
  finally show ?thesis
    by (simp add: hypot_def)
qed

lemma clamp_speed_bound:
  "hypot (ship.vx (ship_clamp_speed s)) (ship.vy (ship_clamp_speed s)) \<le> SHIP_MAX_SPEED"
proof (cases "hypot (ship.vx s) (ship.vy s) > SHIP_MAX_SPEED")
  case True
  then have "0 < hypot (ship.vx s) (ship.vy s)"
    by (simp add: SHIP_MAX_SPEED_def)
  from hypot_scaled [OF this, of SHIP_MAX_SPEED] True show ?thesis
    by (simp add: ship_clamp_speed_def SHIP_MAX_SPEED_def)
next
  case False
  then show ?thesis by (simp add: ship_clamp_speed_def)
qed

lemma clamp_speed_direction:
  "\<exists>c. 0 < c \<and> c \<le> 1 \<and> ship.vx (ship_clamp_speed s) = ship.vx s * c
        \<and> ship.vy (ship_clamp_speed s) = ship.vy s * c"
proof (cases "hypot (ship.vx s) (ship.vy s) > SHIP_MAX_SPEED")
  case True
  then have "0 < SHIP_MAX_SPEED / hypot (ship.vx s) (ship.vy s) \<and> SHIP_MAX_SPEED / hypot (ship.vx s) (ship.vy s) \<le> 1"
    by (simp add: SHIP_MAX_SPEED_def)
  with True show ?thesis
    by (auto simp: ship_clamp_speed_def)
next
  case False
  then show ?thesis by (auto simp: ship_clamp_speed_def intro: exI[of _ 1])
qed

text \<open>
  C6. \<open>Ship.update\<close> is the five steps in this order: accumulate thrust, clamp, friction,
  integrate, wrap. The friction factor is below 1, the clamp rescales both velocity
  components by one factor in \<open>(0, 1]\<close>, and right after the clamp, before friction, the
  speed is at most \<open>SHIP_MAX_SPEED\<close>, hence at most \<open>SHIP_MAX_SPEED + \<epsilon>\<close> for every
  \<open>\<epsilon> \<ge> 0\<close>.
\<close>

theorem ship_update_order:
  "Ship_update keys mouse_pos s =
     ship_wrap (ship_integrate (ship_apply_friction (ship_clamp_speed
       (ship_accumulate_thrust keys mouse_pos s))))
   \<and> SHIP_FRICTION < 1
   \<and> (\<exists>c. 0 < c \<and> c \<le> 1
          \<and> ship.vx (ship_clamp_speed (ship_accumulate_thrust keys mouse_pos s))
              = ship.vx (ship_accumulate_thrust keys mouse_pos s) * c
          \<and> ship.vy (ship_clamp_speed (ship_accumulate_thrust keys mouse_pos s))
              = ship.vy (ship_accumulate_thrust keys mouse_pos s) * c)
   \<and> (0 \<le> \<epsilon> \<longrightarrow>
         hypot (ship.vx (ship_clamp_speed (ship_accumulate_thrust keys mouse_pos s)))
               (ship.vy (ship_clamp_speed (ship_accumulate_thrust keys mouse_pos s)))
           \<le> SHIP_MAX_SPEED + \<epsilon>)"
  using Ship_update_phases [of keys mouse_pos s]
        clamp_speed_direction [of "ship_accumulate_thrust keys mouse_pos s"]
        clamp_speed_bound [of "ship_accumulate_thrust keys mouse_pos s"]
  by (simp add: SHIP_FRICTION_def)

text \<open>
  A ship moving at speed 10 that thrusts forward: the clamp brings it to speed 6, in the
  same direction.
\<close>

theorem ship_update_order_witness:
  "ship.vx (ship_clamp_speed (ship_accumulate_thrust (\<lambda>k. k = K_w) (500, 360)
        (Ship\<lparr>ship.vx := 582 / 100, ship.vy := 8\<rparr>))) = 36 / 10
   \<and> ship.vy (ship_clamp_speed (ship_accumulate_thrust (\<lambda>k. k = K_w) (500, 360)
        (Ship\<lparr>ship.vx := 582 / 100, ship.vy := 8\<rparr>))) = 48 / 10
   \<and> hypot (ship.vx (ship_clamp_speed (ship_accumulate_thrust (\<lambda>k. k = K_w) (500, 360)
               (Ship\<lparr>ship.vx := 582 / 100, ship.vy := 8\<rparr>))))
            (ship.vy (ship_clamp_speed (ship_accumulate_thrust (\<lambda>k. k = K_w) (500, 360)
               (Ship\<lparr>ship.vx := 582 / 100, ship.vy := 8\<rparr>))))
        \<le> SHIP_MAX_SPEED + 0"
proof -
  have acc: "ship_accumulate_thrust (\<lambda>k. k = K_w) (500, 360)
               (Ship\<lparr>ship.vx := 582 / 100, ship.vy := 8\<rparr>)
             = Ship\<lparr>ship.vx := 6, ship.vy := 8\<rparr>"
    by (simp add: ship_accumulate_thrust_def thrust_def vec_from_angle_def atan2_def Ship_def
          Let_def config)
  have "hypot 6 8 = 10"
    by (simp add: hypot_def)
  then have "ship_clamp_speed (Ship\<lparr>ship.vx := 6, ship.vy := 8\<rparr>)
             = Ship\<lparr>ship.vx := 36 / 10, ship.vy := 48 / 10\<rparr>"
    by (simp add: ship_clamp_speed_def Ship_def config)
  with acc ship_update_order [of "\<lambda>k. k = K_w" "(500, 360)"
      "Ship\<lparr>ship.vx := 582 / 100, ship.vy := 8\<rparr>" 0]
  show ?thesis
    by (simp add: Ship_def)
qed

subsection \<open>Splitting\<close>

text \<open>The two literals as doubles, and the doubles that the variance draw works with.\<close>

lemma child_variance_value: "ASTEROID_CHILD_VARIANCE = 5404319552844595 / 2 ^ 55"
  unfolding ASTEROID_CHILD_VARIANCE_def
  by (subst round_double_at [where k = 55]) (simp_all add: round_even_def)

lemma split_factor_value: "ASTEROID_SPLIT_FACTOR = 2476979795053773 / 2 ^ 52"
  unfolding ASTEROID_SPLIT_FACTOR_def
  by (subst round_double_at [where k = 53]) (simp_all add: round_even_def)

lemma variance_is_double: "round_double ASTEROID_CHILD_VARIANCE = ASTEROID_CHILD_VARIANCE"
  unfolding child_variance_value
  by (subst round_double_at [where k = 55]) (simp_all add: round_even_def)

lemma variance_span_is_double:
  "round_double (ASTEROID_CHILD_VARIANCE - (- ASTEROID_CHILD_VARIANCE))
     = 2 * ASTEROID_CHILD_VARIANCE"
  "round_double (2 * ASTEROID_CHILD_VARIANCE) = 2 * ASTEROID_CHILD_VARIANCE"
  unfolding child_variance_value
  by (subst round_double_at [where k = 54], simp_all add: round_even_def)+

lemma child_variance_range:
  assumes "0 \<le> r 0" "r 0 < 1"
  shows "- ASTEROID_CHILD_VARIANCE
           \<le> fst (random_uniform (- ASTEROID_CHILD_VARIANCE) ASTEROID_CHILD_VARIANCE r)
         \<and> fst (random_uniform (- ASTEROID_CHILD_VARIANCE) ASTEROID_CHILD_VARIANCE r)
           \<le> ASTEROID_CHILD_VARIANCE"
proof -
  let ?V = ASTEROID_CHILD_VARIANCE
  let ?t = "round_double (2 * ?V * r 0)"
  have pos: "0 < ?V"
    by (simp add: child_variance_value)
  with assms have "0 \<le> 2 * ?V * r 0" and "2 * ?V * r 0 \<le> 2 * ?V"
    by simp_all
  then have "0 \<le> ?t" and "?t \<le> 2 * ?V"
    using round_double_between [of "2 * ?V" "2 * ?V * r 0"] variance_span_is_double(2) pos
    by (simp_all add: round_double_nonneg)
  then have "- ?V \<le> - ?V + ?t" and "- ?V + ?t \<le> ?V"
    by simp_all
  then have "- ?V \<le> round_double (- ?V + ?t) \<and> round_double (- ?V + ?t) \<le> ?V"
    using variance_is_double by (rule round_double_between)
  then show ?thesis
    by (simp add: random_uniform_def variance_span_is_double)
qed

lemma split_child_feed: "snd (split_child a r) = (\<lambda>k. r (k + 3))"
  by (simp add: split_child_def random_uniform_def advance_def Let_def vec_from_angle_def
        numeral_3_eq_3)

lemma split_child_fields:
  "asteroid.x (fst (split_child a r)) = asteroid.x a"
  "asteroid.y (fst (split_child a r)) = asteroid.y a"
  "asteroid.radius (fst (split_child a r)) =
     max ASTEROID_MIN_RADIUS
       (py_int (round_double (of_int (asteroid.radius a)
          * round_double (ASTEROID_SPLIT_FACTOR
              + fst (random_uniform (- ASTEROID_CHILD_VARIANCE) ASTEROID_CHILD_VARIANCE r)))))"
  by (simp_all add: split_child_def Let_def case_prod_unfold vec_from_angle_def Asteroid_def)

lemma split_children_length: "length (fst (split_children n a r)) = n"
  by (induction n arbitrary: r) (simp_all add: case_prod_unfold Let_def)

lemma split_children_nth:
  "i < n \<Longrightarrow> fst (split_children n a r) ! i = fst (split_child a (\<lambda>k. r (k + 3 * i)))"
proof (induction n arbitrary: r i)
  case 0
  then show ?case by simp
next
  case (Suc n)
  show ?case
  proof (cases i)
    case 0
    then show ?thesis by (simp add: case_prod_unfold Let_def)
  next
    case (Suc j)
    with Suc.prems have "j < n" by simp
    from Suc.IH [OF this, of "snd (split_child a r)"] Suc show ?thesis
      by (simp add: case_prod_unfold Let_def split_child_feed add.commute add.left_commute)
  qed
qed

lemma choice_223:
  fixes u :: real
  assumes "0 \<le> u" "u < 1"
  shows "[2, 2, 3 :: nat] ! nat \<lfloor>u * 3\<rfloor> = (if u < 2 / 3 then 2 else 3)"
proof -
  have "\<lfloor>u * 3\<rfloor> = 0 \<or> \<lfloor>u * 3\<rfloor> = 1 \<or> \<lfloor>u * 3\<rfloor> = 2"
    using assms by (simp add: floor_eq_iff) linarith
  moreover have "\<lfloor>u * 3\<rfloor> = 2 \<longleftrightarrow> \<not> u < 2 / 3"
    using assms by (simp add: floor_eq_iff) linarith
  ultimately show ?thesis
    by auto
qed


text \<open>
  Rounding decides the integer: for a parent of radius 25 and the unit draw
  \<open>2101679826106231 / 2 ^ 51\<close> the product in doubles is exactly 17, while the exact
  product lies just below 17.
\<close>

lemma rounding_decides_radius:
  "py_int (round_double (25 * round_double (ASTEROID_SPLIT_FACTOR
      + fst (random_uniform (- ASTEROID_CHILD_VARIANCE) ASTEROID_CHILD_VARIANCE
               (\<lambda>_. 2101679826106231 / 2 ^ 51))))) = 17"
proof -
  have t: "round_double (2 * ASTEROID_CHILD_VARIANCE * (2101679826106231 / 2 ^ 51))
           = 2522015791327477 / 2 ^ 53"
    unfolding child_variance_value
    by (subst round_double_at [where k = 54]) (simp_all add: round_even_def)
  have var: "round_double (- ASTEROID_CHILD_VARIANCE + 2522015791327477 / 2 ^ 53)
             = 4683743612465313 / 2 ^ 55"
    unfolding child_variance_value
    by (subst round_double_at [where k = 55]) (simp_all add: round_even_def)
  have sum: "round_double (ASTEROID_SPLIT_FACTOR + 4683743612465313 / 2 ^ 55)
             = 3062447746611937 / 2 ^ 52"
    unfolding split_factor_value
    by (subst round_double_at [where k = 53]) (simp_all add: round_even_def)
  have product: "round_double (25 * (3062447746611937 / 2 ^ 52)) = 17"
    by (subst round_double_at [where k = 48]) (simp_all add: round_even_def)
  have "fst (random_uniform (- ASTEROID_CHILD_VARIANCE) ASTEROID_CHILD_VARIANCE
               (\<lambda>_. 2101679826106231 / 2 ^ 51)) = 4683743612465313 / 2 ^ 55"
    unfolding random_uniform_def fst_conv variance_span_is_double(1)
    by (simp only: t var)
  then show ?thesis
    by (simp only: sum product) (simp add: py_int_def)
qed

text \<open>
  C4, amended. An asteroid of radius at most \<open>ASTEROID_MIN_RADIUS\<close> splits into no
  children and draws nothing. A larger one splits into 2 children when the draw of
  \<open>choice([2, 2, 3])\<close> lies in the first two thirds and into 3 otherwise. Child \<open>i\<close> has
  the parent's position and the radius
  \<open>max(ASTEROID_MIN_RADIUS, int(radius * (ASTEROID_SPLIT_FACTOR + var)))\<close>: the sum and
  the product are those of double arithmetic and the product is truncated to an integer.
  Here \<open>var\<close> is what \<open>random.uniform\<close> returns for the child's own draw, a value in
  \<open>[-ASTEROID_CHILD_VARIANCE, ASTEROID_CHILD_VARIANCE]\<close>. So the radius of every child is
  at least \<open>ASTEROID_MIN_RADIUS\<close>.
\<close>

theorem asteroid_split_children:
  "(asteroid.radius a \<le> ASTEROID_MIN_RADIUS \<longrightarrow> Asteroid_split a r = ([], r))
   \<and> (ASTEROID_MIN_RADIUS < asteroid.radius a \<and> unit_draws r \<longrightarrow>
        length (fst (Asteroid_split a r)) = (if r 0 < 2 / 3 then 2 else 3)
        \<and> (\<forall>i < length (fst (Asteroid_split a r)).
             let kid = fst (Asteroid_split a r) ! i;
                 var = fst (random_uniform (- ASTEROID_CHILD_VARIANCE) ASTEROID_CHILD_VARIANCE
                             (skip (1 + 3 * i) r))
             in - ASTEROID_CHILD_VARIANCE \<le> var \<and> var \<le> ASTEROID_CHILD_VARIANCE
                \<and> asteroid.radius kid =
                    max ASTEROID_MIN_RADIUS
                      (py_int (round_double (of_int (asteroid.radius a)
                                 * round_double (ASTEROID_SPLIT_FACTOR + var))))
                \<and> ASTEROID_MIN_RADIUS \<le> asteroid.radius kid
                \<and> asteroid.x kid = asteroid.x a \<and> asteroid.y kid = asteroid.y a))"
proof (intro conjI impI)
  assume "asteroid.radius a \<le> ASTEROID_MIN_RADIUS"
  then show "Asteroid_split a r = ([], r)"
    by (simp add: Asteroid_split_def)
next
  assume h: "ASTEROID_MIN_RADIUS < asteroid.radius a \<and> unit_draws r"
  then have u: "\<And>n. 0 \<le> r n \<and> r n < 1"
    by (simp add: unit_draws_def)
  let ?n = "if r 0 < 2 / 3 then 2 else 3 :: nat"
  have split: "Asteroid_split a r = split_children ?n a (advance r)"
    using h choice_223 [of "r 0"] u [of 0]
    by (simp add: Asteroid_split_def random_choice_def)
  show len: "length (fst (Asteroid_split a r)) = ?n"
    by (simp only: split split_children_length)
  show "\<forall>i < length (fst (Asteroid_split a r)).
             let kid = fst (Asteroid_split a r) ! i;
                 var = fst (random_uniform (- ASTEROID_CHILD_VARIANCE) ASTEROID_CHILD_VARIANCE
                             (skip (1 + 3 * i) r))
             in - ASTEROID_CHILD_VARIANCE \<le> var \<and> var \<le> ASTEROID_CHILD_VARIANCE
                \<and> asteroid.radius kid =
                    max ASTEROID_MIN_RADIUS
                      (py_int (round_double (of_int (asteroid.radius a)
                                 * round_double (ASTEROID_SPLIT_FACTOR + var))))
                \<and> ASTEROID_MIN_RADIUS \<le> asteroid.radius kid
                \<and> asteroid.x kid = asteroid.x a \<and> asteroid.y kid = asteroid.y a"
  proof (intro allI impI)
    fix i
    assume "i < length (fst (Asteroid_split a r))"
    then have "i < ?n"
      by (simp only: len)
    then have "fst (Asteroid_split a r) ! i = fst (split_child a (\<lambda>k. advance r (k + 3 * i)))"
      by (simp only: split split_children_nth)
    moreover have "(\<lambda>k. advance r (k + 3 * i)) = skip (1 + 3 * i) r"
      by (simp add: advance_def skip_def)
    ultimately have kid: "fst (Asteroid_split a r) ! i = fst (split_child a (skip (1 + 3 * i) r))"
      by simp
    have "0 \<le> skip (1 + 3 * i) r 0 \<and> skip (1 + 3 * i) r 0 < 1"
      using u [of "1 + 3 * i"] by (simp add: skip_def)
    then have range:
      "- ASTEROID_CHILD_VARIANCE
           \<le> fst (random_uniform (- ASTEROID_CHILD_VARIANCE) ASTEROID_CHILD_VARIANCE
                   (skip (1 + 3 * i) r))
         \<and> fst (random_uniform (- ASTEROID_CHILD_VARIANCE) ASTEROID_CHILD_VARIANCE
                   (skip (1 + 3 * i) r))
           \<le> ASTEROID_CHILD_VARIANCE"
      by (intro child_variance_range) simp_all
    show "let kid = fst (Asteroid_split a r) ! i;
                 var = fst (random_uniform (- ASTEROID_CHILD_VARIANCE) ASTEROID_CHILD_VARIANCE
                             (skip (1 + 3 * i) r))
             in - ASTEROID_CHILD_VARIANCE \<le> var \<and> var \<le> ASTEROID_CHILD_VARIANCE
                \<and> asteroid.radius kid =
                    max ASTEROID_MIN_RADIUS
                      (py_int (round_double (of_int (asteroid.radius a)
                                 * round_double (ASTEROID_SPLIT_FACTOR + var))))
                \<and> ASTEROID_MIN_RADIUS \<le> asteroid.radius kid
                \<and> asteroid.x kid = asteroid.x a \<and> asteroid.y kid = asteroid.y a"
      using range by (simp add: Let_def kid split_child_fields)
  qed
qed

text \<open>
  The lowest variance draw and a parent of radius 46, step by step in doubles: the draw
  returns \<open>-0.15\<close>, the sum \<open>0.55 + -0.15\<close> is a tie that rounds to the double \<open>0.4\<close>,
  the product \<open>46 * 0.4\<close> rounds to \<open>18.400000000000002\<close>, and \<open>int\<close> makes it 18.
\<close>

lemma unit_zero_draws: "unit_draws zero_draws"
  by (simp add: unit_draws_def zero_draws_def)

lemma lowest_variance:
  "fst (random_uniform (- ASTEROID_CHILD_VARIANCE) ASTEROID_CHILD_VARIANCE (skip m zero_draws))
     = - ASTEROID_CHILD_VARIANCE"
proof -
  have "round_double 0 = 0"
    by (simp add: round_double_def)
  then show ?thesis
    by (simp add: random_uniform_def skip_def zero_draws_def round_double_minus
          variance_is_double)
qed

lemma lowest_factor:
  "round_double (ASTEROID_SPLIT_FACTOR - ASTEROID_CHILD_VARIANCE) = 3602879701896397 / 2 ^ 53"
  unfolding split_factor_value child_variance_value
  by (subst round_double_at [where k = 54]) (simp_all add: round_even_def)

lemma lowest_product:
  "round_double (46 * (3602879701896397 / 2 ^ 53)) = 5179139571476071 / 2 ^ 48"
  by (subst round_double_at [where k = 48]) (simp_all add: round_even_def)

lemma lowest_radius:
  "max ASTEROID_MIN_RADIUS
     (py_int (round_double (of_int (asteroid.radius (rock 300 200 46))
        * round_double (ASTEROID_SPLIT_FACTOR
            + fst (random_uniform (- ASTEROID_CHILD_VARIANCE) ASTEROID_CHILD_VARIANCE
                     (skip m zero_draws)))))) = 18"
proof -
  have sum: "round_double (ASTEROID_SPLIT_FACTOR
            + fst (random_uniform (- ASTEROID_CHILD_VARIANCE) ASTEROID_CHILD_VARIANCE
                     (skip m zero_draws))) = 3602879701896397 / 2 ^ 53"
    by (simp add: lowest_variance lowest_factor)
  have parent: "real_of_int (asteroid.radius (rock 300 200 46)) = 46"
    by (simp add: rock_def Asteroid_def)
  show ?thesis
    by (simp only: sum parent lowest_product) (simp add: py_int_def ASTEROID_MIN_RADIUS_def)
qed

theorem asteroid_split_children_witness:
  "Asteroid_split (rock 300 200 16) zero_draws = ([], zero_draws)
   \<and> length (fst (Asteroid_split (rock 300 200 46) zero_draws)) = 2
   \<and> asteroid.radius (fst (Asteroid_split (rock 300 200 46) zero_draws) ! 1) = 18
   \<and> asteroid.x (fst (Asteroid_split (rock 300 200 46) zero_draws) ! 1) = 300
   \<and> asteroid.y (fst (Asteroid_split (rock 300 200 46) zero_draws) ! 1) = 200"
proof -
  have small: "asteroid.radius (rock 300 200 16) \<le> ASTEROID_MIN_RADIUS"
    and big: "ASTEROID_MIN_RADIUS < asteroid.radius (rock 300 200 46)"
    by (simp_all add: rock_def Asteroid_def config)
  from asteroid_split_children [of "rock 300 200 16" zero_draws] small
  have none: "Asteroid_split (rock 300 200 16) zero_draws = ([], zero_draws)"
    by blast
  from asteroid_split_children [of "rock 300 200 46" zero_draws] big unit_zero_draws
  have two: "length (fst (Asteroid_split (rock 300 200 46) zero_draws)) = 2"
    and kids: "\<forall>i < length (fst (Asteroid_split (rock 300 200 46) zero_draws)).
             let kid = fst (Asteroid_split (rock 300 200 46) zero_draws) ! i;
                 var = fst (random_uniform (- ASTEROID_CHILD_VARIANCE) ASTEROID_CHILD_VARIANCE
                             (skip (1 + 3 * i) zero_draws))
             in - ASTEROID_CHILD_VARIANCE \<le> var \<and> var \<le> ASTEROID_CHILD_VARIANCE
                \<and> asteroid.radius kid =
                    max ASTEROID_MIN_RADIUS
                      (py_int (round_double (of_int (asteroid.radius (rock 300 200 46))
                                 * round_double (ASTEROID_SPLIT_FACTOR + var))))
                \<and> ASTEROID_MIN_RADIUS \<le> asteroid.radius kid
                \<and> asteroid.x kid = asteroid.x (rock 300 200 46)
                \<and> asteroid.y kid = asteroid.y (rock 300 200 46)"
    by (simp_all add: zero_draws_def)
  from kids two have
    "asteroid.radius (fst (Asteroid_split (rock 300 200 46) zero_draws) ! 1) = 18
     \<and> asteroid.x (fst (Asteroid_split (rock 300 200 46) zero_draws) ! 1)
         = asteroid.x (rock 300 200 46)
     \<and> asteroid.y (fst (Asteroid_split (rock 300 200 46) zero_draws) ! 1)
         = asteroid.y (rock 300 200 46)"
    by (simp add: Let_def lowest_radius)
  with none two show ?thesis
    by (simp add: rock_def Asteroid_def)
qed

text \<open>
  The radius formula without the truncation fails there: the children of that parent have
  radius 18, while \<open>46 * (ASTEROID_SPLIT_FACTOR + var)\<close> is more than 18.39 for every
  variance in range.
\<close>

theorem split_radius_counterexample:
  "real_of_int (asteroid.radius (fst (Asteroid_split (rock 300 200 46) zero_draws) ! 0)) = 18
   \<and> \<not> (\<exists>var. - ASTEROID_CHILD_VARIANCE \<le> var \<and> var \<le> ASTEROID_CHILD_VARIANCE
            \<and> real_of_int (asteroid.radius (fst (Asteroid_split (rock 300 200 46) zero_draws) ! 0))
                = max (real_of_int ASTEROID_MIN_RADIUS)
                    (real_of_int (asteroid.radius (rock 300 200 46)) * (ASTEROID_SPLIT_FACTOR + var)))"
proof -
  have "Asteroid_split (rock 300 200 46) zero_draws
          = split_children 2 (rock 300 200 46) (advance zero_draws)"
    by (simp add: Asteroid_split_def random_choice_def rock_def Asteroid_def zero_draws_def
          config)
  moreover have "advance zero_draws = skip 1 zero_draws"
    by (simp add: advance_def skip_def)
  ultimately have "fst (Asteroid_split (rock 300 200 46) zero_draws) ! 0
          = fst (split_child (rock 300 200 46) (skip 1 zero_draws))"
    by (simp add: numeral_2_eq_2 case_prod_unfold Let_def)
  then have kid: "asteroid.radius (fst (Asteroid_split (rock 300 200 46) zero_draws) ! 0) = 18"
    by (simp only: split_child_fields lowest_radius)
  have "real_of_int (asteroid.radius (rock 300 200 46)) * (ASTEROID_SPLIT_FACTOR + var) > 18"
    if "- ASTEROID_CHILD_VARIANCE \<le> var" for var
    using that by (simp add: rock_def Asteroid_def split_factor_value child_variance_value)
  then have "max (real_of_int ASTEROID_MIN_RADIUS)
               (real_of_int (asteroid.radius (rock 300 200 46)) * (ASTEROID_SPLIT_FACTOR + var)) \<noteq> 18"
    if "- ASTEROID_CHILD_VARIANCE \<le> var" for var
    using that by (fastforce simp: ASTEROID_MIN_RADIUS_def max_def)
  then show ?thesis
    unfolding kid by auto
qed

subsection \<open>Waves\<close>

lemma skip_skip: "skip m (skip n f) = skip (n + m) f"
  by (simp add: skip_def add.assoc add.commute add.left_commute)

lemma advance_skip: "advance (skip n f) = skip (Suc n) f"
  by (simp add: skip_def advance_def)

lemma advance_eq_skip: "advance f = skip 1 f"
  by (simp add: skip_def advance_def)

lemma skip_0: "skip 0 f = f"
  by (simp add: skip_def)

lemma resampling_ends_skip: "resampling_ends s r \<Longrightarrow> resampling_ends s (skip m r)"
  unfolding resampling_ends_def skip_skip
proof
  fix n
  assume h: "\<forall>n. \<exists>k. accepted_draws s (skip (n + 2 * k) r)"
  from h obtain k where "accepted_draws s (skip ((m + n) + 2 * k) r)" by blast
  then show "\<exists>k. accepted_draws s (skip (m + (n + 2 * k)) r)"
    by (auto simp: add.assoc)
qed

lemma spawn_position_step:
  "spawn_position s r =
     (if accepted_draws s r
      then Some ((fst (random_randrange margin (WIDTH - margin) r),
                  fst (random_randrange margin (HEIGHT - margin) (advance r))), skip 2 r)
      else spawn_position s (skip 2 r))"
  by (subst spawn_position.simps)
     (simp add: accepted_draws_def far_from_ship_def random_randrange_def Let_def
        advance_def skip_def numeral_2_eq_2)

lemma spawn_position_ends:
  "accepted_draws s (skip (2 * k) r) \<Longrightarrow>
     \<exists>px py m. spawn_position s r = Some ((px, py), skip m r)
                \<and> far_from_ship s (of_int px) (of_int py)"
proof (induction k arbitrary: r)
  case 0
  then have "accepted_draws s r"
    by (simp add: skip_0)
  then show ?case
    using spawn_position_step [of s r] by (auto simp: accepted_draws_def)
next
  case (Suc k)
  show ?case
  proof (cases "accepted_draws s r")
    case True
    then show ?thesis
      using spawn_position_step [of s r] by (auto simp: accepted_draws_def)
  next
    case False
    from Suc.prems have "accepted_draws s (skip (2 * k) (skip 2 r))"
      by (simp add: skip_skip)
    from Suc.IH [OF this] obtain px py m
      where "spawn_position s (skip 2 r) = Some ((px, py), skip m (skip 2 r))"
        and "far_from_ship s (of_int px) (of_int py)"
      by blast
    with False show ?thesis
      using spawn_position_step [of s r] by (auto simp: skip_skip)
  qed
qed

lemma spawn_loop_ends:
  "resampling_ends s r \<Longrightarrow>
     \<exists>new m. spawn_loop n s as r = Some (as @ new, skip m r) \<and> length new = n
       \<and> (\<forall>a \<in> set new. far_from_ship s (asteroid.x a) (asteroid.y a))"
proof (induction n arbitrary: as r)
  case 0
  have "spawn_loop 0 s as r = Some (as @ [], skip 0 r)"
    by (simp add: skip_0)
  then show ?case by fastforce
next
  case (Suc n)
  from Suc.prems obtain k where "accepted_draws s (skip (0 + 2 * k) r)"
    unfolding resampling_ends_def by blast
  then have "accepted_draws s (skip (2 * k) r)" by simp
  from spawn_position_ends [OF this] obtain px py m
    where pos: "spawn_position s r = Some ((px, py), skip m r)"
      and far: "far_from_ship s (of_int px) (of_int py)"
    by blast
  let ?rad = "fst (random_randint (ASTEROID_MAX_RADIUS - 15) ASTEROID_MAX_RADIUS (skip m r))"
  let ?a = "fst (Asteroid_random (of_int px) (of_int py) ?rad (skip (Suc m) r))"
  have feed: "snd (Asteroid_random (of_int px) (of_int py) ?rad (skip (Suc m) r)) = skip (m + 3) r"
    by (simp add: Asteroid_random_def random_uniform_def Let_def case_prod_unfold advance_skip
          numeral_3_eq_3)
  have xy: "asteroid.x ?a = of_int px \<and> asteroid.y ?a = of_int py"
    by (simp add: Asteroid_random_def random_uniform_def Let_def case_prod_unfold Asteroid_def)
  have step: "spawn_loop (Suc n) s as r = spawn_loop n s (as @ [?a]) (skip (m + 3) r)"
    using feed
    by (simp add: pos random_randint_def random_randrange_def case_prod_unfold Let_def advance_skip)
  from Suc.prems have "resampling_ends s (skip (m + 3) r)"
    by (rule resampling_ends_skip)
  from Suc.IH [OF this, of "as @ [?a]"] obtain new m'
    where "spawn_loop n s (as @ [?a]) (skip (m + 3) r) = Some ((as @ [?a]) @ new, skip m' (skip (m + 3) r))"
      and "length new = n"
      and "\<forall>a \<in> set new. far_from_ship s (asteroid.x a) (asteroid.y a)"
    by blast
  with step far xy
  have "spawn_loop (Suc n) s as r = Some (as @ (?a # new), skip (m + 3 + m') r)
        \<and> length (?a # new) = Suc n
        \<and> (\<forall>a \<in> set (?a # new). far_from_ship s (asteroid.x a) (asteroid.y a))"
    by (simp add: skip_skip)
  then show ?case by blast
qed

lemma hypot_gt: "0 \<le> c \<Longrightarrow> (c < hypot a b) = (c\<^sup>2 < a\<^sup>2 + b\<^sup>2)"
  unfolding hypot_def
  by (metis real_sqrt_less_iff real_sqrt_abs abs_of_nonneg)

lemma skip_zero_draws: "skip m zero_draws = zero_draws"
  by (simp add: skip_def zero_draws_def)

lemma resampling_zero: "resampling_ends Ship zero_draws"
proof -
  have "accepted_draws Ship zero_draws"
    by (simp add: accepted_draws_def far_from_ship_def hypot_gt random_randrange_def
          advance_def zero_draws_def Ship_def margin_def config)
  then show ?thesis
    by (simp add: resampling_ends_def skip_zero_draws)
qed

lemma spawn_wave_ends:
  assumes "resampling_ends (ship g) r"
  shows "\<exists>as m. spawn_wave n g r = Some (g\<lparr>asteroids := as\<rparr>, skip m r) \<and> length as = nat n
           \<and> (\<forall>a \<in> set as. far_from_ship (ship g) (asteroid.x a) (asteroid.y a))"
proof -
  from spawn_loop_ends [OF assms, of "nat n" "[]"] obtain new m
    where "spawn_loop (nat n) (ship g) [] r = Some (new, skip m r)" and "length new = nat n"
      and "\<forall>a \<in> set new. far_from_ship (ship g) (asteroid.x a) (asteroid.y a)"
    by auto
  then have "spawn_wave n g r = Some (g\<lparr>asteroids := new\<rparr>, skip m r) \<and> length new = nat n
           \<and> (\<forall>a \<in> set new. far_from_ship (ship g) (asteroid.x a) (asteroid.y a))"
    by (simp add: spawn_wave_def)
  then show ?thesis by blast
qed

text \<open>
  C3. The last block of \<open>Game.update\<close> spawns nothing while an asteroid is left or the
  game is over. When the asteroid list is empty and the game is not over, and resampling
  ends on the random feed, it spawns one wave: the session changes in its asteroid list
  only, the list has \<open>min(12, 5 + score // 15)\<close> asteroids, and every one of them is
  more than 200 away from the ship's position at that moment.
\<close>

theorem next_wave_spawns:
  "(asteroids g \<noteq> [] \<or> game_over g \<longrightarrow> next_wave g r = Some (g, r))
   \<and> (asteroids g = [] \<and> \<not> game_over g \<and> resampling_ends (ship g) r \<longrightarrow>
        (\<exists>as m. next_wave g r = Some (g\<lparr>asteroids := as\<rparr>, skip m r)
           \<and> length as = nat (min 12 (5 + score g div 15))
           \<and> (0 \<le> score g \<longrightarrow> int (length as) = min 12 (5 + score g div 15))
           \<and> (\<forall>a \<in> set as. far_from_ship (ship g) (asteroid.x a) (asteroid.y a))))"
proof (intro conjI impI)
  assume "asteroids g \<noteq> [] \<or> game_over g"
  then show "next_wave g r = Some (g, r)"
    by (auto simp: next_wave_def)
next
  assume h: "asteroids g = [] \<and> \<not> game_over g \<and> resampling_ends (ship g) r"
  then have "resampling_ends (ship g) r" by simp
  from spawn_wave_ends [OF this, of "min 12 (5 + score g div 15)"] obtain as m
    where "spawn_wave (min 12 (5 + score g div 15)) g r = Some (g\<lparr>asteroids := as\<rparr>, skip m r)"
      and "length as = nat (min 12 (5 + score g div 15))"
      and "\<forall>a \<in> set as. far_from_ship (ship g) (asteroid.x a) (asteroid.y a)"
    by blast
  with h have "next_wave g r = Some (g\<lparr>asteroids := as\<rparr>, skip m r)
           \<and> length as = nat (min 12 (5 + score g div 15))
           \<and> (0 \<le> score g \<longrightarrow> int (length as) = min 12 (5 + score g div 15))
           \<and> (\<forall>a \<in> set as. far_from_ship (ship g) (asteroid.x a) (asteroid.y a))"
    by (simp add: next_wave_def)
  then show "\<exists>as m. next_wave g r = Some (g\<lparr>asteroids := as\<rparr>, skip m r)
           \<and> length as = nat (min 12 (5 + score g div 15))
           \<and> (0 \<le> score g \<longrightarrow> int (length as) = min 12 (5 + score g div 15))
           \<and> (\<forall>a \<in> set as. far_from_ship (ship g) (asteroid.x a) (asteroid.y a))"
    by blast
qed

theorem next_wave_spawns_witness:
  "\<exists>as. next_wave ((session [])\<lparr>score := 47\<rparr>) zero_draws
           = Some ((session [])\<lparr>score := 47, asteroids := as\<rparr>, zero_draws)
        \<and> length as = 8
        \<and> (\<forall>a \<in> set as. far_from_ship Ship (asteroid.x a) (asteroid.y a))"
  using next_wave_spawns [of "(session [])\<lparr>score := 47\<rparr>" zero_draws] resampling_zero
  by (simp add: session_def skip_zero_draws)

subsection \<open>Restart\<close>

lemma Game_ends:
  assumes "resampling_ends Ship r"
  shows "\<exists>as m. Game r = Some (\<lparr>ship = Ship, lasers = [], asteroids = as, score = 0, lives = 3,
                           last_shot = 0, running = True, paused = False, game_over = False\<rparr>,
                          skip m r)
           \<and> length as = 5
           \<and> (\<forall>a \<in> set as. far_from_ship Ship (asteroid.x a) (asteroid.y a))"
proof -
  let ?g0 = "\<lparr>ship = Ship, lasers = [], asteroids = [], score = 0, lives = LIVES,
        last_shot = 0, running = True, paused = False, game_over = False\<rparr>"
  from assms have "resampling_ends (ship ?g0) r" by simp
  from spawn_wave_ends [OF this, of ASTEROID_START_COUNT] obtain as m
    where "Game r = Some (?g0\<lparr>asteroids := as\<rparr>, skip m r)" and "length as = 5"
      and "\<forall>a \<in> set as. far_from_ship Ship (asteroid.x a) (asteroid.y a)"
    by (auto simp: Game_def ASTEROID_START_COUNT_def)
  then have "Game r = Some (\<lparr>ship = Ship, lasers = [], asteroids = as, score = 0, lives = 3,
                           last_shot = 0, running = True, paused = False, game_over = False\<rparr>,
                          skip m r)
           \<and> length as = 5
           \<and> (\<forall>a \<in> set as. far_from_ship Ship (asteroid.x a) (asteroid.y a))"
    by (simp add: LIVES_def)
  then show ?thesis by blast
qed

text \<open>
  C9. The key \<open>R\<close> does nothing unless the game is over. When the game is over (and
  resampling ends on the random feed) it runs \<open>Game.__init__\<close> again: whatever the
  session was, the new one has 3 lives, score 0, neither flag set, no laser, no shot on
  record, the ship as constructed (mid-screen, at rest, angle 0) and a starting wave of 5
  asteroids, all far from the ship.
\<close>

theorem restart_reinitialises:
  "(\<not> game_over g \<longrightarrow> handle_event (KEYDOWN K_r) g clk r = Some (g, clk, r))
   \<and> (game_over g \<and> resampling_ends Ship r \<longrightarrow>
        (\<exists>as m. handle_event (KEYDOWN K_r) g clk r
                  = Some (\<lparr>ship = Ship, lasers = [], asteroids = as, score = 0, lives = 3,
                           last_shot = 0, running = True, paused = False, game_over = False\<rparr>,
                          clk, skip m r)
           \<and> length as = 5
           \<and> (\<forall>a \<in> set as. far_from_ship Ship (asteroid.x a) (asteroid.y a))))
   \<and> ship.x Ship = 480 \<and> ship.y Ship = 360 \<and> ship.vx Ship = 0 \<and> ship.vy Ship = 0
   \<and> ship.angle Ship = 0"
proof (intro conjI impI)
  assume "\<not> game_over g"
  then show "handle_event (KEYDOWN K_r) g clk r = Some (g, clk, r)"
    by (simp add: handle_event_def)
next
  assume h: "game_over g \<and> resampling_ends Ship r"
  then have "resampling_ends Ship r"
    by simp
  from Game_ends [OF this] obtain as m
    where "Game r = Some (\<lparr>ship = Ship, lasers = [], asteroids = as, score = 0, lives = 3,
                           last_shot = 0, running = True, paused = False, game_over = False\<rparr>,
                          skip m r)"
      and "length as = 5"
      and "\<forall>a \<in> set as. far_from_ship Ship (asteroid.x a) (asteroid.y a)"
    by blast
  with h have "handle_event (KEYDOWN K_r) g clk r
                  = Some (\<lparr>ship = Ship, lasers = [], asteroids = as, score = 0, lives = 3,
                           last_shot = 0, running = True, paused = False, game_over = False\<rparr>,
                          clk, skip m r)
           \<and> length as = 5
           \<and> (\<forall>a \<in> set as. far_from_ship Ship (asteroid.x a) (asteroid.y a))"
    by (simp add: handle_event_def)
  then show "\<exists>as m. handle_event (KEYDOWN K_r) g clk r
                  = Some (\<lparr>ship = Ship, lasers = [], asteroids = as, score = 0, lives = 3,
                           last_shot = 0, running = True, paused = False, game_over = False\<rparr>,
                          clk, skip m r)
           \<and> length as = 5
           \<and> (\<forall>a \<in> set as. far_from_ship Ship (asteroid.x a) (asteroid.y a))"
    by blast
qed (simp_all add: Ship_def config)

theorem restart_reinitialises_witness:
  "handle_event (KEYDOWN K_r) (session [rock 480 360 40]) (steady_clock 9000) zero_draws
     = Some (session [rock 480 360 40], steady_clock 9000, zero_draws)
   \<and> (\<exists>as. handle_event (KEYDOWN K_r)
              ((session [rock 480 360 40])\<lparr>lives := 0, score := 8, paused := True, game_over := True\<rparr>)
              (steady_clock 9000) zero_draws
            = Some (\<lparr>ship = Ship, lasers = [], asteroids = as, score = 0, lives = 3,
                     last_shot = 0, running = True, paused = False, game_over = False\<rparr>,
                    steady_clock 9000, zero_draws)
          \<and> length as = 5)"
  using restart_reinitialises [of "session [rock 480 360 40]" "steady_clock 9000" zero_draws]
        restart_reinitialises [of "(session [rock 480 360 40])\<lparr>lives := 0, score := 8, paused := True, game_over := True\<rparr>"
           "steady_clock 9000" zero_draws]
        resampling_zero
  by (auto simp: session_def skip_zero_draws)

subsection \<open>Lasers against asteroids\<close>

lemma laser_touches_dead: "laser_touches b (l\<lparr>laser.alive := False\<rparr>) = laser_touches b l"
  by (simp add: laser_touches_def)

lemma hit_by_laser_hit: "snd (hit_by_laser a ls) = (\<exists>l \<in> set ls. laser_touches a l)"
  by (induction ls) (auto simp: case_prod_unfold Let_def)

lemma hit_by_laser_touches:
  "(\<exists>l \<in> set (fst (hit_by_laser a ls)). laser_touches b l) = (\<exists>l \<in> set ls. laser_touches b l)"
  by (induction ls) (auto simp: case_prod_unfold Let_def laser_touches_dead)

lemma lasers_vs_asteroids_score:
  "fst (snd (lasers_vs_asteroids as ls sc new r))
     = sc + sum_list (map points (filter (\<lambda>a. \<exists>l \<in> set ls. laser_touches a l) as))"
proof (induction as arbitrary: ls sc new r)
  case Nil
  then show ?case by simp
next
  case (Cons a as)
  have t: "(\<lambda>b. \<exists>l \<in> set (fst (hit_by_laser a ls)). laser_touches b l)
           = (\<lambda>b. \<exists>l \<in> set ls. laser_touches b l)"
    by (rule ext) (rule hit_by_laser_touches)
  show ?case
    using hit_by_laser_hit [of a ls]
    by (simp add: case_prod_unfold Let_def Cons.IH t)
qed

lemma py_mod_inside: "0 \<le> a \<Longrightarrow> a < m \<Longrightarrow> py_mod a m = a"
proof -
  assume a: "0 \<le> a" "a < m"
  then have "\<lfloor>a / m\<rfloor> = 0"
    by (simp add: floor_eq_iff)
  with a have "fmod a m = a"
    by (simp add: fmod_def py_int_def)
  with a show ?thesis
    by (simp add: py_mod_def)
qed

lemma double_hit_phase:
  "lasers_vs_asteroids [rock 109 100 16, rock 111 102 16, rock 701 600 50] [bolt 109 100] 0 [] r
     = ([(bolt 109 100)\<lparr>laser.alive := False\<rparr>], 16, [rock 701 600 50], r)"
  by (simp add: laser_touches_def rock_def Asteroid_def bolt_def points_def Asteroid_split_def
        power2_eq_square config)

lemma double_hit_tick:
  "Game_update (\<lambda>_. False) (480, 360)
       ((session [rock 108 100 16, rock 110 102 16, rock 700 600 50])\<lparr>lasers := [bolt 100 100]\<rparr>)
       (steady_clock 5000) zero_draws
     = Some ((session [rock 701 600 50])
               \<lparr>lasers := [(bolt 109 100)\<lparr>laser.alive := False\<rparr>], score := 16\<rparr>,
             steady_clock 5000, zero_draws)"
proof -
  have ship: "Ship_update (\<lambda>_. False) (480, 360) Ship = Ship"
    by (simp add: Ship_update_def thrust_def hypot_def atan2_def wrap_position_def
          py_mod_inside Ship_def config)
  have lasers: "Laser_update (bolt 100 100) (steady_clock 5000)
                = (bolt 109 100, steady_clock 5000)"
    by (simp add: Laser_update_def get_ticks_def wrap_position_def py_mod_inside bolt_def
          steady_clock_def advance_def config)
  have rocks: "Asteroid_update (rock 108 100 16) = rock 109 100 16"
    "Asteroid_update (rock 110 102 16) = rock 111 102 16"
    "Asteroid_update (rock 700 600 50) = rock 701 600 50"
    by (simp_all add: Asteroid_update_def wrap_position_def py_mod_inside rock_def Asteroid_def
          config)
  have alive: "laser.alive (bolt 109 100)"
    by (simp add: bolt_def)
  have ship_phase: "ship_vs_asteroids g (steady_clock 5000) = (g, steady_clock 5000)"
    if "ship g = Ship" "asteroids g = [rock 701 600 50]" for g
    using that
    by (simp add: ship_vs_asteroids_eq ship_touches_def rock_def Asteroid_def Ship_def
          steady_clock_def advance_def power2_eq_square config)
  show ?thesis
    by (simp add: Game_update_def session_def ship lasers rocks alive double_hit_phase
          ship_phase next_wave_def del: lasers_vs_asteroids.simps)
qed

text \<open>
  C1. The inner loop of the laser phase walks every laser of the list and does not look
  at \<open>alive\<close>, so a laser that was marked dead by a hit earlier in the same tick still
  registers hits. One laser at (109, 100) and two small asteroids that both reach it: the
  dead laser hits the second asteroid, the phase destroys both and scores 8 for each, and
  so does the whole tick.
\<close>

theorem one_laser_two_asteroids:
  "hit_by_laser (rock 111 102 16) [(bolt 109 100)\<lparr>laser.alive := False\<rparr>]
     = ([(bolt 109 100)\<lparr>laser.alive := False\<rparr>], True)
   \<and> lasers_vs_asteroids [rock 109 100 16, rock 111 102 16, rock 701 600 50] [bolt 109 100]
        0 [] zero_draws
     = ([(bolt 109 100)\<lparr>laser.alive := False\<rparr>], 16, [rock 701 600 50], zero_draws)
   \<and> Game_update (\<lambda>_. False) (480, 360)
       ((session [rock 108 100 16, rock 110 102 16, rock 700 600 50])\<lparr>lasers := [bolt 100 100]\<rparr>)
       (steady_clock 5000) zero_draws
     = Some ((session [rock 701 600 50])
               \<lparr>lasers := [(bolt 109 100)\<lparr>laser.alive := False\<rparr>], score := 16\<rparr>,
             steady_clock 5000, zero_draws)"
  using double_hit_phase [of zero_draws] double_hit_tick
  by (simp add: laser_touches_def rock_def Asteroid_def bolt_def power2_eq_square)

subsection \<open>Score\<close>

lemma sum_points_nonneg: "0 \<le> sum_list (map points as)"
  by (induction as) (simp_all add: points_def)

lemma spawn_wave_score: "spawn_wave n g r = Some (g', r') \<Longrightarrow> score g' = score g"
  by (auto simp: spawn_wave_def split: option.splits)

lemma next_wave_score: "next_wave g r = Some (g', r') \<Longrightarrow> score g' = score g"
  by (auto simp: next_wave_def Let_def spawn_wave_score split: if_splits)

lemma ship_vs_asteroids_score: "score (fst (ship_vs_asteroids g clk)) = score g"
proof -
  have "score (fst (ship_hit_loop as g c)) = score g" for as c
    by (induction as) (simp_all add: Let_def case_prod_unfold)
  then show ?thesis
    by (simp add: ship_vs_asteroids_def case_prod_unfold Let_def)
qed

lemma Game_update_score:
  assumes "Game_update keys mouse_pos g clk r = Some (g', clk', r')"
  shows "score g \<le> score g'"
proof (cases "game_over g \<or> paused g")
  case True
  with assms show ?thesis by (simp add: Game_update_def)
next
  case False
  with assms show ?thesis
    using sum_points_nonneg
    by (auto simp: Game_update_def Let_def case_prod_unfold lasers_vs_asteroids_score
          ship_vs_asteroids_score
        split: option.splits dest!: next_wave_score)
qed

lemma shoot_score: "score (fst (shoot g clk)) = score g"
  by (simp add: shoot_def Let_def case_prod_unfold)

lemma Game_score: "Game r = Some (g, r') \<Longrightarrow> score g = 0"
  by (auto simp: Game_def dest!: spawn_wave_score)

lemma handle_event_score:
  assumes "handle_event e g clk r = Some (g', clk', r')"
  shows "score g' = score g \<or> (e = KEYDOWN K_r \<and> game_over g \<and> score g' = 0)"
  using assms shoot_score [of g clk]
  by (auto simp: handle_event_def case_prod_unfold Let_def
      split: event.splits if_splits option.splits dest: Game_score)

text \<open>
  C7, amended. The laser phase adds to the score, for every asteroid that a laser
  touches (these are the asteroids it destroys), exactly
  \<open>max(1, (ASTEROID_MAX_RADIUS - radius) // 5)\<close> points, which is at least 1. A tick
  never lowers the score, a fire request leaves it alone, and an event leaves it alone
  unless it is the restart in game over, which sets it back to 0, the score every session
  starts with. So the score is a non-negative integer that grows from tick to tick until
  a restart.
\<close>

theorem score_grows_in_play:
  "fst (snd (lasers_vs_asteroids as ls sc new r))
     = sc + sum_list (map points (filter (\<lambda>a. \<exists>l \<in> set ls. laser_touches a l) as))
   \<and> points a = max 1 ((ASTEROID_MAX_RADIUS - asteroid.radius a) div 5)
   \<and> 1 \<le> points a
   \<and> (Game_update keys mouse_pos g clk rr = Some (g', clk', r') \<longrightarrow>
         score g \<le> score g' \<and> (0 \<le> score g \<longrightarrow> 0 \<le> score g'))
   \<and> score (fst (shoot g clk)) = score g
   \<and> (handle_event e g clk rr = Some (g'', clk'', r'') \<longrightarrow>
         (score g'' = score g \<or> (e = KEYDOWN K_r \<and> game_over g \<and> score g'' = 0))
         \<and> (0 \<le> score g \<longrightarrow> 0 \<le> score g''))
   \<and> (Game rr = Some (g0, r0) \<longrightarrow> score g0 = 0)"
  using lasers_vs_asteroids_score [of as ls sc new r] Game_update_score [of keys mouse_pos g clk rr g' clk' r']
    shoot_score [of g clk] handle_event_score [of e g clk rr g'' clk'' r''] Game_score [of rr g0 r0]
  by (auto simp: points_def)

theorem score_grows_in_play_witness:
  "sum_list (map points (filter (\<lambda>a. \<exists>l \<in> set [bolt 109 100]. laser_touches a l)
        [rock 109 100 16, rock 111 102 16, rock 701 600 50])) = 16
   \<and> points (rock 109 100 16) = 8
   \<and> score ((session [rock 108 100 16, rock 110 102 16, rock 700 600 50])
              \<lparr>lasers := [bolt 100 100]\<rparr>)
       \<le> score ((session [rock 701 600 50])
                  \<lparr>lasers := [(bolt 109 100)\<lparr>laser.alive := False\<rparr>], score := 16\<rparr>)
   \<and> score ((session [rock 108 100 16, rock 110 102 16, rock 700 600 50])
              \<lparr>lasers := [bolt 100 100], paused := True\<rparr>)
       = score ((session [rock 108 100 16, rock 110 102 16, rock 700 600 50])
              \<lparr>lasers := [bolt 100 100]\<rparr>)"
proof -
  let ?g = "(session [rock 108 100 16, rock 110 102 16, rock 700 600 50])
              \<lparr>lasers := [bolt 100 100]\<rparr>"
  let ?g' = "(session [rock 701 600 50])
               \<lparr>lasers := [(bolt 109 100)\<lparr>laser.alive := False\<rparr>], score := 16\<rparr>"
  have pause: "handle_event (KEYDOWN K_p) ?g (steady_clock 5000) zero_draws
               = Some (?g\<lparr>paused := True\<rparr>, steady_clock 5000, zero_draws)"
    by (simp add: handle_event_def session_def)
  note t = score_grows_in_play
      [where as = "[rock 109 100 16, rock 111 102 16, rock 701 600 50]" and ls = "[bolt 109 100]"
         and sc = 0 and new = "[]" and r = zero_draws and a = "rock 109 100 16"
         and keys = "\<lambda>_. False" and mouse_pos = "(480, 360)" and g = ?g
         and clk = "steady_clock 5000" and rr = zero_draws and g' = ?g'
         and clk' = "steady_clock 5000" and r' = zero_draws and e = "KEYDOWN K_p"
         and g'' = "?g\<lparr>paused := True\<rparr>" and clk'' = "steady_clock 5000"
         and r'' = zero_draws]
  from t have "fst (snd (lasers_vs_asteroids [rock 109 100 16, rock 111 102 16, rock 701 600 50]
                    [bolt 109 100] 0 [] zero_draws))
               = 0 + sum_list (map points (filter (\<lambda>a. \<exists>l \<in> set [bolt 109 100]. laser_touches a l)
                      [rock 109 100 16, rock 111 102 16, rock 701 600 50]))"
    by (rule conjunct1)
  then have total: "sum_list (map points (filter (\<lambda>a. \<exists>l \<in> set [bolt 109 100]. laser_touches a l)
        [rock 109 100 16, rock 111 102 16, rock 701 600 50])) = 16"
    by (simp only: double_hit_phase fst_conv snd_conv)
  have worth: "points (rock 109 100 16) = 8"
    by (simp add: points_def rock_def Asteroid_def config)
  from t double_hit_tick have grows: "score ?g \<le> score ?g'"
    by blast
  from t pause have "score (?g\<lparr>paused := True\<rparr>) = score ?g \<or> KEYDOWN K_p = KEYDOWN K_r"
    by blast
  then have same: "score (?g\<lparr>paused := True\<rparr>) = score ?g"
    by simp
  from total worth grows same show ?thesis
    by simp
qed

text \<open>
  A restart lowers the score: a session that ended with score 8 has score 0 after it.
\<close>

theorem restart_resets_score_counterexample:
  "\<exists>g' clk' r'.
      handle_event (KEYDOWN K_r) ((session [])\<lparr>score := 8, lives := 0, game_over := True\<rparr>)
          (steady_clock 9000) zero_draws = Some (g', clk', r')
      \<and> score g' < score ((session [])\<lparr>score := 8, lives := 0, game_over := True\<rparr>)"
proof -
  from Game_ends [OF resampling_zero] obtain as m
    where "Game zero_draws
             = Some (\<lparr>ship = Ship, lasers = [], asteroids = as, score = 0, lives = 3,
                      last_shot = 0, running = True, paused = False, game_over = False\<rparr>,
                     skip m zero_draws)"
    by blast
  then show ?thesis
    by (simp add: handle_event_def session_def)
qed

subsection \<open>Wrapping\<close>

text \<open>
  What the float \<open>%\<close> guarantees for a positive modulus that is a double: the result lies
  between 0 and the modulus, both ends included. The remainder of \<open>fmod\<close> lies strictly
  inside, but when it is negative the modulus is added in double arithmetic, and that sum
  can round up to the modulus itself.
\<close>

lemma fmod_range:
  assumes "0 < m"
  shows "- m < fmod a m \<and> fmod a m < m
         \<and> (0 \<le> a \<longrightarrow> 0 \<le> fmod a m) \<and> (a < 0 \<longrightarrow> fmod a m \<le> 0)"
proof (cases "0 \<le> a / m")
  case True
  with assms have a: "0 \<le> a"
    by (simp add: zero_le_divide_iff)
  have "of_int \<lfloor>a / m\<rfloor> * m \<le> a"
    using assms by (simp add: pos_le_divide_eq [symmetric])
  moreover have "a / m < of_int \<lfloor>a / m\<rfloor> + 1"
    by linarith
  then have "a < (of_int \<lfloor>a / m\<rfloor> + 1) * m"
    using assms by (simp only: pos_divide_less_eq)
  ultimately have "0 \<le> a - m * of_int \<lfloor>a / m\<rfloor>" and "a - m * of_int \<lfloor>a / m\<rfloor> < m"
    by (simp_all add: algebra_simps)
  with True a assms show ?thesis
    by (simp add: fmod_def py_int_def)
next
  case False
  with assms have a: "a < 0"
    by (simp add: zero_le_divide_iff not_le)
  have "a \<le> of_int \<lceil>a / m\<rceil> * m"
    using assms by (simp add: pos_divide_le_eq [symmetric])
  moreover have "of_int \<lceil>a / m\<rceil> - 1 < a / m"
    by linarith
  then have "(of_int \<lceil>a / m\<rceil> - 1) * m < a"
    using assms by (simp only: pos_less_divide_eq)
  ultimately have "a - m * of_int \<lceil>a / m\<rceil> \<le> 0" and "- m < a - m * of_int \<lceil>a / m\<rceil>"
    by (simp_all add: algebra_simps)
  with False a assms show ?thesis
    by (simp add: fmod_def py_int_def)
qed

lemma py_mod_bounds:
  assumes "0 < m" "round_double m = m"
  shows "0 \<le> py_mod a m \<and> py_mod a m \<le> m"
proof (cases "fmod a m < 0")
  case True
  with fmod_range [OF assms(1), of a] have "- m \<le> fmod a m + m" and "fmod a m + m \<le> m"
    and "0 \<le> fmod a m + m"
    by simp_all
  with assms(2) round_double_between [of m "fmod a m + m"]
    round_double_nonneg [of "fmod a m + m"]
  have "0 \<le> round_double (fmod a m + m) \<and> round_double (fmod a m + m) \<le> m"
    by simp
  with True assms(1) show ?thesis
    by (simp add: py_mod_def Let_def)
next
  case False
  with fmod_range [OF assms(1), of a] assms(1) show ?thesis
    by (simp add: py_mod_def Let_def)
qed

lemma wrap_position_bounds:
  "0 \<le> fst (wrap_position px py) \<and> fst (wrap_position px py) \<le> of_int WIDTH
   \<and> 0 \<le> snd (wrap_position px py) \<and> snd (wrap_position px py) \<le> of_int HEIGHT"
proof -
  have "round_double 960 = 960"
    by (subst round_double_at [where k = 43]) (simp_all add: round_even_def)
  moreover have "round_double 720 = 720"
    by (subst round_double_at [where k = 43]) (simp_all add: round_even_def)
  ultimately show ?thesis
    using py_mod_bounds [of 960 px] py_mod_bounds [of 720 py]
    by (simp add: wrap_position_def config)
qed

lemma round_below_width: "round_double (- (1 / 2 ^ 52) + 960) = 960"
  by (subst round_double_at [where k = 43]) (simp_all add: round_even_def)

text \<open>
  C8. The wrapped position can be the width itself. An asteroid at \<open>x = 1\<close> with
  \<open>vx = -(1 + 2 ^ -52)\<close>, which is the double \<open>-1.0000000000000002\<close>, moves to
  \<open>-(2 ^ -52)\<close> (the sum is exact in doubles as well); \<open>fmod\<close> leaves that unchanged,
  the modulus is added, and \<open>960 - 2 ^ -52\<close> rounds to \<open>960.0\<close>. After the update
  \<open>x = WIDTH\<close>, so \<open>x < WIDTH\<close> does not hold.
\<close>

theorem wrap_reaches_width:
  "asteroid.x (Asteroid_update (Asteroid 1 100 16 (- (1 + 1 / 2 ^ 52)) 0)) = of_int WIDTH
   \<and> \<not> asteroid.x (Asteroid_update (Asteroid 1 100 16 (- (1 + 1 / 2 ^ 52)) 0)) < of_int WIDTH"
proof -
  have "fmod (- (1 / 2 ^ 52)) 960 = - (1 / 2 ^ 52)"
    by (simp add: fmod_def py_int_def ceiling_eq_iff)
  then have "py_mod (- (1 / 2 ^ 52)) 960 = 960"
    by (simp only: py_mod_def Let_def round_below_width) simp
  moreover have "asteroid.x (Asteroid 1 100 16 (- (1 + 1 / 2 ^ 52)) 0)
                 + asteroid.vx (Asteroid 1 100 16 (- (1 + 1 / 2 ^ 52)) 0) = - (1 / 2 ^ 52)"
    by (simp add: Asteroid_def)
  ultimately have "asteroid.x (Asteroid_update (Asteroid 1 100 16 (- (1 + 1 / 2 ^ 52)) 0)) = 960"
    by (simp only: Asteroid_update_def wrap_position_def WIDTH_def Let_def case_prod_conv
          of_int_numeral) simp
  then show ?thesis
    by (simp add: WIDTH_def)
qed

end
